theory Spec2Isabelle
  imports Main "HOL-Library.Word" "HOL-Library.Sublist"
begin

section \<open>JavaScript strings\<close>

text \<open>
  A JavaScript string is a sequence of UTF-16 code units: \<open>s.length\<close> counts them and
  \<open>s.slice(0, n)\<close> (for \<open>0 \<le> n\<close>) keeps the first \<open>n\<close> of them. The empty string is the
  only falsy string.
\<close>

type_synonym jsstring = "16 word list"

definition ascii :: "string \<Rightarrow> jsstring" where
  "ascii s = map (\<lambda>c. word_of_nat (of_char c)) s"

text \<open>
  \<open>String.prototype.trim\<close> removes leading and trailing WhiteSpace and LineTerminator
  code units (ECMA-262, 22.1.3.32).
\<close>

definition isWhiteSpace :: "16 word \<Rightarrow> bool" where
  "isWhiteSpace c \<longleftrightarrow>
     c \<in> {0x09, 0x0A, 0x0B, 0x0C, 0x0D, 0x20, 0xA0, 0x1680,
          0x2000, 0x2001, 0x2002, 0x2003, 0x2004, 0x2005, 0x2006, 0x2007, 0x2008, 0x2009, 0x200A,
          0x2028, 0x2029, 0x202F, 0x205F, 0x3000, 0xFEFF}"

definition js_trim :: "jsstring \<Rightarrow> jsstring" where
  "js_trim s = rev (dropWhile isWhiteSpace (rev (dropWhile isWhiteSpace s)))"

section \<open>The context trimmer (src/ai/providers.ts)\<close>

text \<open>
  A thrown exception (a rejected promise) is a value. The handler of a research branch only
  looks at the message of the exception to choose its log line.
\<close>

datatype error = TimeoutError | OtherError

text \<open>
  \<open>trimPrompt\<close> uses two collaborators that are taken as parameters:
  \<^item> \<open>encode\<close>: \<open>encoder.encode(prompt).length\<close>, the number of tokens of a text in the
    o200k_base encoding of js-tiktoken. \<open>encoder.encode\<close> is called with its default
    arguments, under which it throws when the text contains a special token of the
    encoding (such as \<open><|endoftext|>\<close>): \<open>Inl\<close> is that exception;
  \<^item> \<open>splitText\<close>: \<open>new RecursiveCharacterTextSplitter({chunkSize, chunkOverlap: 0}).splitText(prompt)\<close>,
    as a function of \<open>chunkSize\<close> and the text (the class lives in ./text-splitter).
  The budget \<open>contextSize\<close> is an integer.
\<close>

definition MinChunkSize :: int where
  "MinChunkSize = 140"

text \<open>
  One activation of \<open>trimPrompt\<close> (lines 46 to 74): it returns a text, it calls itself on
  another text, or the tokenizer throws (nothing in \<open>trimPrompt\<close> catches).
\<close>

datatype trim_step = Return jsstring | Recurse jsstring | Fail error

definition trimPrompt_step ::
  "(jsstring \<Rightarrow> error + nat) \<Rightarrow> (int \<Rightarrow> jsstring \<Rightarrow> jsstring list) \<Rightarrow> jsstring \<Rightarrow> int \<Rightarrow> trim_step" where
  "trimPrompt_step encode splitText prompt contextSize =
     (if prompt = [] then Return []
      else
        (case encode prompt of
           Inl e \<Rightarrow> Fail e
         | Inr tokens \<Rightarrow>
             let len = int tokens in
             if len \<le> contextSize then Return prompt
             else
               let overflowTokens = len - contextSize;
                   chunkSize = int (length prompt) - overflowTokens * 3
               in
               if chunkSize < MinChunkSize then Return (take (nat MinChunkSize) prompt)
               else
                 let trimmedPrompt = (case splitText chunkSize prompt of [] \<Rightarrow> [] | c # _ \<Rightarrow> c) in
                 if length trimmedPrompt = length prompt then Recurse (take (nat chunkSize) prompt)
                 else Recurse trimmedPrompt))"

text \<open>
  The function itself: \<open>None\<close> is a recursion that never returns, \<open>Some (Inl e)\<close> the
  exception \<open>e\<close> thrown, \<open>Some (Inr r)\<close> the text \<open>r\<close> returned.
\<close>

partial_function (option) trimPrompt ::
  "(jsstring \<Rightarrow> error + nat) \<Rightarrow> (int \<Rightarrow> jsstring \<Rightarrow> jsstring list) \<Rightarrow> jsstring \<Rightarrow> int
     \<Rightarrow> (error + jsstring) option" where
  "trimPrompt encode splitText prompt contextSize =
     (case trimPrompt_step encode splitText prompt contextSize of
        Return r \<Rightarrow> Some (Inr r)
      | Fail e \<Rightarrow> Some (Inl e)
      | Recurse p \<Rightarrow> trimPrompt encode splitText p contextSize)"

declare trimPrompt.simps [code]

text \<open>
  The same recursion with a bound on the number of recursive calls: \<open>None\<close> when \<open>n\<close>
  recursive calls were not enough.
\<close>

fun trimPrompt_within ::
  "nat \<Rightarrow> (jsstring \<Rightarrow> error + nat) \<Rightarrow> (int \<Rightarrow> jsstring \<Rightarrow> jsstring list) \<Rightarrow> jsstring \<Rightarrow> int
     \<Rightarrow> (error + jsstring) option" where
  "trimPrompt_within 0 encode splitText prompt contextSize =
     (case trimPrompt_step encode splitText prompt contextSize of
        Return r \<Rightarrow> Some (Inr r)
      | Fail e \<Rightarrow> Some (Inl e)
      | Recurse p \<Rightarrow> None)"
| "trimPrompt_within (Suc n) encode splitText prompt contextSize =
     (case trimPrompt_step encode splitText prompt contextSize of
        Return r \<Rightarrow> Some (Inr r)
      | Fail e \<Rightarrow> Some (Inl e)
      | Recurse p \<Rightarrow> trimPrompt_within n encode splitText p contextSize)"

text \<open>
  Modelled from the spec: the class \<open>RecursiveCharacterTextSplitter\<close> of ./text-splitter is
  not among the sources. The specification has it split the text into structural chunks
  (at paragraph, sentence and word boundaries, falling back to raw character slicing). What
  the theorems below ask of the splitter is stated on its first chunk, the only one
  \<open>trimPrompt\<close> reads: that it is never longer than the text, that it is a contiguous
  piece of the text, that it is a prefix of the text, or that it is a prefix of the text
  once leading white space is dropped (a splitter that trims its chunks).
\<close>

definition splitter_nonexpanding :: "(int \<Rightarrow> jsstring \<Rightarrow> jsstring list) \<Rightarrow> bool" where
  "splitter_nonexpanding splitText \<longleftrightarrow>
     (\<forall>n s c cs. splitText n s = c # cs \<longrightarrow> length c \<le> length s)"

definition splitter_contiguous :: "(int \<Rightarrow> jsstring \<Rightarrow> jsstring list) \<Rightarrow> bool" where
  "splitter_contiguous splitText \<longleftrightarrow>
     (\<forall>n s c cs. splitText n s = c # cs \<longrightarrow> sublist c s)"

definition splitter_prefix :: "(int \<Rightarrow> jsstring \<Rightarrow> jsstring list) \<Rightarrow> bool" where
  "splitter_prefix splitText \<longleftrightarrow>
     (\<forall>n s c cs. splitText n s = c # cs \<longrightarrow> prefix c s)"

text \<open>
  Two notions of the statements: a text whose tokens can be counted and are within a
  budget, and a text that is a prefix of another one, or of what is left of it once its
  leading white space is dropped.
\<close>

definition tokensWithin :: "(jsstring \<Rightarrow> error + nat) \<Rightarrow> jsstring \<Rightarrow> int \<Rightarrow> bool" where
  "tokensWithin encode text budget =
     (case encode text of Inl e \<Rightarrow> False | Inr tokens \<Rightarrow> int tokens \<le> budget)"

definition prefixLike :: "jsstring \<Rightarrow> jsstring \<Rightarrow> bool" where
  "prefixLike r s \<longleftrightarrow> prefix r s \<or> prefix r (dropWhile isWhiteSpace s)"

definition splitter_prefixLike :: "(int \<Rightarrow> jsstring \<Rightarrow> jsstring list) \<Rightarrow> bool" where
  "splitter_prefixLike splitText \<longleftrightarrow>
     (\<forall>n s c cs. splitText n s = c # cs \<longrightarrow> prefixLike c s)"

text \<open>
  Stand-ins for the two collaborators, used in the closed instances below. Tokenizers: one
  that makes every code unit a token, one that makes a token of every four code units
  (the last token may be shorter), and one that counts code units and rejects a text that
  contains \<open><|endoftext|>\<close>. Splitters: one that cuts the text into pieces of \<open>chunkSize\<close>
  code units, one that trims these pieces, and one that finds nothing to split.
\<close>

definition unitTokens :: "jsstring \<Rightarrow> error + nat" where
  "unitTokens s = Inr (length s)"

definition quarterTokens :: "jsstring \<Rightarrow> error + nat" where
  "quarterTokens s = Inr ((length s + 3) div 4)"

definition strictTokens :: "jsstring \<Rightarrow> error + nat" where
  "strictTokens s = (if sublist (ascii ''<|endoftext|>'') s then Inl OtherError else Inr (length s))"

fun hardCut :: "nat \<Rightarrow> jsstring \<Rightarrow> jsstring list" where
  "hardCut n [] = []"
| "hardCut n (x # xs) = (if n = 0 then [x # xs] else take n (x # xs) # hardCut n (drop n (x # xs)))"

definition cutSplitter :: "int \<Rightarrow> jsstring \<Rightarrow> jsstring list" where
  "cutSplitter chunkSize s = hardCut (nat chunkSize) s"

definition trimmingSplitter :: "int \<Rightarrow> jsstring \<Rightarrow> jsstring list" where
  "trimmingSplitter chunkSize s = map js_trim (hardCut (nat chunkSize) s)"

definition wholeSplitter :: "int \<Rightarrow> jsstring \<Rightarrow> jsstring list" where
  "wholeSplitter chunkSize s = [s]"

section \<open>The research orchestrator (deepResearch and its helpers)\<close>

subsection \<open>Data\<close>

text \<open>
  Depth and breadth are integers. An optional property is an \<open>option\<close>: \<open>None\<close> is
  \<open>undefined\<close>. A \<open>UrlWithSummary\<close> is a JavaScript object, and \<open>new Set\<close> compares objects by
  identity: \<open>ref\<close> is the identity of the object, given when the object literal of line 287
  is evaluated. The properties \<open>url\<close>, \<open>markdown\<close> and \<open>metadata\<close> of a search result are the
  fields \<open>doc_url\<close>, \<open>doc_markdown\<close> and \<open>doc_metadata\<close>, and the \<open>learnings\<close> of the object
  answered to \<open>processSerpResult\<close> are \<open>new_learnings\<close>.
\<close>

record SerpQuery =
  query :: jsstring
  researchGoal :: jsstring

record Metadata =
  title :: "jsstring option"
  description :: "jsstring option"

record SearchItem =
  doc_url :: "jsstring option"
  doc_markdown :: "jsstring option"
  doc_metadata :: "Metadata option"

record UrlWithSummary =
  ref :: nat
  url :: jsstring
  summary :: jsstring

record ResearchResult =
  learnings :: "jsstring list"
  visitedUrls :: "UrlWithSummary list"

record SerpLearnings =
  new_learnings :: "jsstring list"
  followUpQuestions :: "jsstring list"

record ResearchProgress =
  currentDepth :: int
  totalDepth :: int
  currentBreadth :: int
  totalBreadth :: int
  currentQuery :: "jsstring option"
  totalQueries :: int
  completedQueries :: int

subsection \<open>Effects\<close>

text \<open>
  How a call ends: it returns, it throws, it never returns because a \<open>trimPrompt\<close> inside it
  never does (\<open>Hangs\<close>), or it needs more nested invocations of \<open>deepResearch\<close> than the bound
  it was run with (\<open>TooDeep\<close>). The last two cannot be caught.
\<close>

datatype 'a outcome = Returns 'a | Throws error | Hangs | TooDeep

text \<open>
  The state: the world outside the program (whatever the language model, the search
  service and the observer remember), the next fresh object identity, and the snapshots
  handed to the progress observer so far.
\<close>

record 'w state =
  world :: 'w
  nextRef :: nat
  notified :: "ResearchProgress list"

text \<open>
  The collaborators. Each external call reads and changes the world and either fails or
  answers:
  \<^item> \<open>llmQueries topic numQueries learnings\<close>: the \<open>generateObject\<close> call of \<open>generateSerpQueries\<close>;
  \<^item> \<open>search q\<close>: \<open>firecrawl.search(q, {timeout: 15000, limit: 5, ...})\<close>, answering \<open>result.data\<close>;
  \<^item> \<open>llmSummary content\<close>: the \<open>generateObject\<close> call with \<open>summaryModel\<close>, answering \<open>object.summary\<close>;
  \<^item> \<open>llmLearnings q contents numLearnings numFollowUpQuestions\<close>: the \<open>generateObject\<close> call of
    \<open>processSerpResult\<close> (with its 60 s abort signal), answering \<open>res.object\<close>;
  \<^item> \<open>tokenCount\<close>, \<open>splitter\<close>: the collaborators of \<open>trimPrompt\<close>;
  \<^item> \<open>defaultContextSize\<close>: \<open>Number(process.env.CONTEXT_SIZE) || 128_000\<close>.
  Log lines are not modelled.
\<close>

record 'w env =
  tokenCount :: "jsstring \<Rightarrow> error + nat"
  splitter :: "int \<Rightarrow> jsstring \<Rightarrow> jsstring list"
  defaultContextSize :: int
  llmQueries :: "jsstring \<Rightarrow> int \<Rightarrow> jsstring list \<Rightarrow> 'w \<Rightarrow> (error + SerpQuery list) \<times> 'w"
  search :: "jsstring \<Rightarrow> 'w \<Rightarrow> (error + SearchItem list) \<times> 'w"
  llmSummary :: "jsstring \<Rightarrow> 'w \<Rightarrow> (error + jsstring) \<times> 'w"
  llmLearnings :: "jsstring \<Rightarrow> jsstring list \<Rightarrow> int \<Rightarrow> int \<Rightarrow> 'w \<Rightarrow> (error + SerpLearnings) \<times> 'w"

text \<open>
  The progress observer \<open>onProgress\<close>: called with the progress object, it changes the world
  and returns (\<open>None\<close>) or throws.
\<close>

type_synonym 'w observer = "ResearchProgress \<Rightarrow> 'w \<Rightarrow> error option \<times> 'w"

subsection \<open>Small library functions\<close>

text \<open>\<open>xs.slice(0, n)\<close>: a negative \<open>n\<close> counts from the end.\<close>

definition slice0 :: "'a list \<Rightarrow> int \<Rightarrow> 'a list" where
  "slice0 xs n = (if 0 \<le> n then take (nat n) xs else take (nat (int (length xs) + n)) xs)"

text \<open>\<open>[...new Set(xs)]\<close>: the first occurrence of every element, in order; \<open>key\<close> is what
  the set compares (the value of a string, the identity of an object).\<close>

definition uniqueBy :: "('a \<Rightarrow> 'k) \<Rightarrow> 'a list \<Rightarrow> 'a list" where
  "uniqueBy key xs = foldl (\<lambda>acc x. if key x \<in> key ` set acc then acc else acc @ [x]) [] xs"

text \<open>lodash \<open>compact\<close> on strings (drops \<open>undefined\<close> and the empty string) and on objects
  (drops \<open>null\<close>).\<close>

definition compactStrings :: "jsstring option list \<Rightarrow> jsstring list" where
  "compactStrings xs = filter (\<lambda>x. x \<noteq> []) (List.map_filter (\<lambda>x. x) xs)"

definition compactObjects :: "'a option list \<Rightarrow> 'a list" where
  "compactObjects xs = List.map_filter (\<lambda>x. x) xs"

text \<open>\<open>Math.ceil(breadth / 2)\<close> on an integer.\<close>

definition ceilHalf :: "int \<Rightarrow> int" where
  "ceilHalf b = - ((- b) div 2)"

definition ellipsis :: jsstring where
  "ellipsis = ascii ''...''"

text \<open>The placeholder of line 283, five code units (U+65E0 U+53EF U+7528 U+6458 U+8981).\<close>

definition noSummary :: jsstring where
  "noSummary = [0x65E0, 0x53EF, 0x7528, 0x6458, 0x8981]"

subsection \<open>generateSerpQueries and processSerpResult\<close>

definition generateSerpQueries ::
  "'w env \<Rightarrow> jsstring \<Rightarrow> int \<Rightarrow> jsstring list \<Rightarrow> 'w state \<Rightarrow> SerpQuery list outcome \<times> 'w state" where
  "generateSerpQueries env topic numQueries ls s =
     (case llmQueries env topic numQueries ls (world s) of
        (Inl e, w) \<Rightarrow> (Throws e, s\<lparr>world := w\<rparr>)
      | (Inr queries, w) \<Rightarrow> (Returns (slice0 queries numQueries), s\<lparr>world := w\<rparr>))"

text \<open>
  \<open>contents.map(content => trimPrompt(content, 25_000))\<close> (line 119): the texts are trimmed
  in order; the first \<open>trimPrompt\<close> that throws or never returns ends the map.
\<close>

fun trimContents :: "'w env \<Rightarrow> jsstring list \<Rightarrow> (error + jsstring list) option" where
  "trimContents env [] = Some (Inr [])"
| "trimContents env (content # rest) =
     (case trimPrompt (tokenCount env) (splitter env) content 25000 of
        None \<Rightarrow> None
      | Some (Inl e) \<Rightarrow> Some (Inl e)
      | Some (Inr trimmed) \<Rightarrow>
          (case trimContents env rest of
             None \<Rightarrow> None
           | Some (Inl e) \<Rightarrow> Some (Inl e)
           | Some (Inr others) \<Rightarrow> Some (Inr (trimmed # others))))"

text \<open>
  \<open>processSerpResult\<close>: an exception of the tokenizer in line 119 is thrown by the function
  before the model is called.
\<close>

definition processSerpResult ::
  "'w env \<Rightarrow> jsstring \<Rightarrow> SearchItem list \<Rightarrow> int \<Rightarrow> int \<Rightarrow> 'w state \<Rightarrow> SerpLearnings outcome \<times> 'w state" where
  "processSerpResult env q items numLearnings numFollowUpQuestions s =
     (case trimContents env (compactStrings (map doc_markdown items)) of
        None \<Rightarrow> (Hangs, s)
      | Some (Inl e) \<Rightarrow> (Throws e, s)
      | Some (Inr contents) \<Rightarrow>
          (case llmLearnings env q contents numLearnings numFollowUpQuestions (world s) of
             (Inl e, w) \<Rightarrow> (Throws e, s\<lparr>world := w\<rparr>)
           | (Inr res, w) \<Rightarrow> (Returns res, s\<lparr>world := w\<rparr>)))"

subsection \<open>The summary of one search result (lines 236 to 291)\<close>

text \<open>
  \<open>usable t\<close> is the test \<open>t && t.trim() !== ''\<close> of lines 242 and 246 on an optional
  string: the string when it passes.
\<close>

definition usable :: "jsstring option \<Rightarrow> jsstring option" where
  "usable t = (case t of None \<Rightarrow> None | Some v \<Rightarrow> if v \<noteq> [] \<and> js_trim v \<noteq> [] then Some v else None)"

definition truncate150 :: "jsstring \<Rightarrow> jsstring" where
  "truncate150 d = take 150 d @ (if length d > 150 then ellipsis else [])"

text \<open>\<open>item.markdown.slice(0, 150).replace(/\n/g, ' ')\<close>, with the ellipsis of line 276.\<close>

definition markdownFallback :: "jsstring \<Rightarrow> jsstring" where
  "markdownFallback m =
     map (\<lambda>c. if c = 0x0A then 0x20 else c) (take 150 m) @ (if length m > 150 then ellipsis else [])"

text \<open>
  The value of the variable \<open>summary\<close> when line 281 is reached: the title, else the
  description, else the generated summary or, when the \<open>try\<close> block of lines 254 to 272
  throws, the cut markdown; else it is still empty. That block holds the \<open>trimPrompt\<close> of
  the markdown and the call of the summary model: when the tokenizer throws, the model is
  not called. Only the third way calls out.
\<close>

definition selectSummary :: "'w env \<Rightarrow> SearchItem \<Rightarrow> 'w state \<Rightarrow> jsstring outcome \<times> 'w state" where
  "selectSummary env item s =
     (case usable (Option.bind (doc_metadata item) title) of
        Some t \<Rightarrow> (Returns t, s)
      | None \<Rightarrow>
          (case usable (Option.bind (doc_metadata item) description) of
             Some d \<Rightarrow> (Returns (truncate150 d), s)
           | None \<Rightarrow>
               (case doc_markdown item of
                  None \<Rightarrow> (Returns [], s)
                | Some m \<Rightarrow>
                    if m = [] then (Returns [], s)
                    else
                      (case trimPrompt (tokenCount env) (splitter env) m (defaultContextSize env) of
                         None \<Rightarrow> (Hangs, s)
                       | Some (Inl e) \<Rightarrow> (Returns (markdownFallback m), s)
                       | Some (Inr content) \<Rightarrow>
                           (case llmSummary env content (world s) of
                              (Inr generated, w) \<Rightarrow> (Returns generated, s\<lparr>world := w\<rparr>)
                            | (Inl e, w) \<Rightarrow> (Returns (markdownFallback m), s\<lparr>world := w\<rparr>))))))"

text \<open>Lines 281 to 284.\<close>

definition ensureSummary :: "jsstring \<Rightarrow> jsstring" where
  "ensureSummary candidate = (if candidate = [] \<or> js_trim candidate = [] then noSummary else candidate)"

text \<open>
  The function mapped over \<open>result.data\<close>: \<open>None\<close> is the \<open>null\<close> of line 237.
\<close>

definition newUrl :: "'w env \<Rightarrow> SearchItem \<Rightarrow> 'w state \<Rightarrow> UrlWithSummary option outcome \<times> 'w state" where
  "newUrl env item s =
     (case doc_url item of
        None \<Rightarrow> (Returns None, s)
      | Some u \<Rightarrow>
          if u = [] then (Returns None, s)
          else
            (case selectSummary env item s of
               (Returns candidate, s1) \<Rightarrow>
                 (Returns (Some \<lparr>ref = nextRef s1, url = u, summary = ensureSummary candidate\<rparr>),
                  s1\<lparr>nextRef := Suc (nextRef s1)\<rparr>)
             | (Throws e, s1) \<Rightarrow> (Throws e, s1)
             | (Hangs, s1) \<Rightarrow> (Hangs, s1)
             | (TooDeep, s1) \<Rightarrow> (TooDeep, s1)))"

text \<open>
  \<open>await Promise.all(result.data.map(...))\<close>: the calls for the summaries are issued in the
  order of the results, and the world is threaded through them in that order.
\<close>

fun newUrls :: "'w env \<Rightarrow> SearchItem list \<Rightarrow> 'w state \<Rightarrow> UrlWithSummary option list outcome \<times> 'w state" where
  "newUrls env [] s = (Returns [], s)"
| "newUrls env (item # items) s =
     (case newUrl env item s of
        (Returns r, s1) \<Rightarrow>
          (case newUrls env items s1 of
             (Returns rs, s2) \<Rightarrow> (Returns (r # rs), s2)
           | (Throws e, s2) \<Rightarrow> (Throws e, s2)
           | (Hangs, s2) \<Rightarrow> (Hangs, s2)
           | (TooDeep, s2) \<Rightarrow> (TooDeep, s2))
      | (Throws e, s1) \<Rightarrow> (Throws e, s1)
      | (Hangs, s1) \<Rightarrow> (Hangs, s1)
      | (TooDeep, s1) \<Rightarrow> (TooDeep, s1))"

subsection \<open>Progress (lines 198 to 210)\<close>

definition initialProgress :: "int \<Rightarrow> int \<Rightarrow> ResearchProgress" where
  "initialProgress depth breadth =
     \<lparr>currentDepth = depth, totalDepth = depth, currentBreadth = breadth, totalBreadth = breadth,
      currentQuery = None, totalQueries = 0, completedQueries = 0\<rparr>"

text \<open>
  \<open>reportProgress(update)\<close>: \<open>Object.assign(progress, update)\<close>, then the observer, when
  there is one, is called with the progress object. The update is a function on the
  record. The result carries the progress object after the assignment.
\<close>

definition reportProgress ::
  "'w observer option \<Rightarrow> (ResearchProgress \<Rightarrow> ResearchProgress) \<Rightarrow> ResearchProgress \<Rightarrow> 'w state
     \<Rightarrow> unit outcome \<times> ResearchProgress \<times> 'w state" where
  "reportProgress onProgress update progress s =
     (let progress' = update progress in
      case onProgress of
        None \<Rightarrow> (Returns (), progress', s)
      | Some observer \<Rightarrow>
          (case observer progress' (world s) of
             (None, w) \<Rightarrow> (Returns (), progress', s\<lparr>world := w, notified := notified s @ [progress']\<rparr>)
           | (Some e, w) \<Rightarrow> (Throws e, progress', s\<lparr>world := w, notified := notified s @ [progress']\<rparr>)))"

text \<open>The three updates of the program: lines 218 to 221, 311 to 316 and 332 to 336.\<close>

definition updateQueries :: "SerpQuery list \<Rightarrow> ResearchProgress \<Rightarrow> ResearchProgress" where
  "updateQueries serpQueries p =
     p\<lparr>totalQueries := int (length serpQueries),
       currentQuery := (case serpQueries of [] \<Rightarrow> None | first # _ \<Rightarrow> Some (query first))\<rparr>"

definition updateDeeper :: "int \<Rightarrow> int \<Rightarrow> SerpQuery \<Rightarrow> ResearchProgress \<Rightarrow> ResearchProgress" where
  "updateDeeper newDepth newBreadth serpQuery p =
     p\<lparr>currentDepth := newDepth, currentBreadth := newBreadth,
       completedQueries := completedQueries p + 1, currentQuery := Some (query serpQuery)\<rparr>"

definition updateDone :: "SerpQuery \<Rightarrow> ResearchProgress \<Rightarrow> ResearchProgress" where
  "updateDone serpQuery p =
     p\<lparr>currentDepth := 0, completedQueries := completedQueries p + 1,
       currentQuery := Some (query serpQuery)\<rparr>"

subsection \<open>One query branch (lines 227 to 356)\<close>

definition nextQuery :: "SerpQuery \<Rightarrow> jsstring list \<Rightarrow> jsstring" where
  "nextQuery serpQuery followUps =
     js_trim (ascii ''\<newline>            Previous research goal: '' @ researchGoal serpQuery @
              ascii ''\<newline>            Follow-up research directions: '' @
              concat (map (\<lambda>f. ascii ''\<newline>'' @ f) followUps) @
              ascii ''\<newline>          '')"

text \<open>
  What the \<open>try\<close> block of a branch evaluates to: the object of line 337, or the promise of
  the nested \<open>deepResearch\<close> call of line 323, given by the arguments of that call. The
  block returns that promise without awaiting it.
\<close>

datatype tried =
  Value ResearchResult
| Nested jsstring int int "jsstring list" "UrlWithSummary list"

definition tryBlock ::
  "'w env \<Rightarrow> 'w observer option \<Rightarrow> int \<Rightarrow> int \<Rightarrow> jsstring list \<Rightarrow> UrlWithSummary list
     \<Rightarrow> ResearchProgress \<Rightarrow> SerpQuery \<Rightarrow> 'w state \<Rightarrow> tried outcome \<times> ResearchProgress \<times> 'w state" where
  "tryBlock env onProgress breadth depth learnings0 visitedUrls0 progress serpQuery s =
     (case search env (query serpQuery) (world s) of
        (Inl e, w) \<Rightarrow> (Throws e, progress, s\<lparr>world := w\<rparr>)
      | (Inr items, w) \<Rightarrow>
          (case newUrls env items (s\<lparr>world := w\<rparr>) of
             (Throws e, s1) \<Rightarrow> (Throws e, progress, s1)
           | (Hangs, s1) \<Rightarrow> (Hangs, progress, s1)
           | (TooDeep, s1) \<Rightarrow> (TooDeep, progress, s1)
           | (Returns found, s1) \<Rightarrow>
               (let newBreadth = ceilHalf breadth;
                    newDepth = depth - 1
                in
                case processSerpResult env (query serpQuery) items 3 newBreadth s1 of
                  (Throws e, s2) \<Rightarrow> (Throws e, progress, s2)
                | (Hangs, s2) \<Rightarrow> (Hangs, progress, s2)
                | (TooDeep, s2) \<Rightarrow> (TooDeep, progress, s2)
                | (Returns newLearnings, s2) \<Rightarrow>
                    (let allLearnings = learnings0 @ new_learnings newLearnings;
                         allUrls = visitedUrls0 @ compactObjects found
                     in
                     if newDepth > 0 then
                       (case reportProgress onProgress (updateDeeper newDepth newBreadth serpQuery) progress s2 of
                          (Returns _, progress', s3) \<Rightarrow>
                            (Returns (Nested (nextQuery serpQuery (followUpQuestions newLearnings))
                                       newBreadth newDepth allLearnings allUrls), progress', s3)
                        | (Throws e, progress', s3) \<Rightarrow> (Throws e, progress', s3)
                        | (Hangs, progress', s3) \<Rightarrow> (Hangs, progress', s3)
                        | (TooDeep, progress', s3) \<Rightarrow> (TooDeep, progress', s3))
                     else
                       (case reportProgress onProgress (updateDone serpQuery) progress s2 of
                          (Returns _, progress', s3) \<Rightarrow>
                            (Returns (Value \<lparr>learnings = allLearnings, visitedUrls = allUrls\<rparr>), progress', s3)
                        | (Throws e, progress', s3) \<Rightarrow> (Throws e, progress', s3)
                        | (Hangs, progress', s3) \<Rightarrow> (Hangs, progress', s3)
                        | (TooDeep, progress', s3) \<Rightarrow> (TooDeep, progress', s3))))))"

text \<open>
  The task given to \<open>limit\<close>: the \<open>try\<close> block with its handler. An exception thrown inside
  the block becomes the empty result. The promise of the nested call is settled after the
  block was left, so what the nested call \<open>recurse\<close> throws is thrown by the task.
\<close>

definition emptyResult :: ResearchResult where
  "emptyResult = \<lparr>learnings = [], visitedUrls = []\<rparr>"

definition researchBranch ::
  "(jsstring \<Rightarrow> int \<Rightarrow> int \<Rightarrow> jsstring list \<Rightarrow> UrlWithSummary list \<Rightarrow> 'w state \<Rightarrow> ResearchResult outcome \<times> 'w state)
     \<Rightarrow> 'w env \<Rightarrow> 'w observer option \<Rightarrow> int \<Rightarrow> int \<Rightarrow> jsstring list \<Rightarrow> UrlWithSummary list
     \<Rightarrow> ResearchProgress \<Rightarrow> SerpQuery \<Rightarrow> 'w state \<Rightarrow> ResearchResult outcome \<times> ResearchProgress \<times> 'w state" where
  "researchBranch recurse env onProgress breadth depth learnings0 visitedUrls0 progress serpQuery s =
     (case tryBlock env onProgress breadth depth learnings0 visitedUrls0 progress serpQuery s of
        (Returns (Value r), progress', s') \<Rightarrow> (Returns r, progress', s')
      | (Returns (Nested q b d ls us), progress', s') \<Rightarrow>
          (case recurse q b d ls us s' of (out, s'') \<Rightarrow> (out, progress', s''))
      | (Throws e, progress', s') \<Rightarrow> (Returns emptyResult, progress', s')
      | (Hangs, progress', s') \<Rightarrow> (Hangs, progress', s')
      | (TooDeep, progress', s') \<Rightarrow> (TooDeep, progress', s'))"

subsection \<open>The fan-out and the aggregate (lines 223 to 363)\<close>

text \<open>
  \<open>Promise.all\<close> over the tasks under \<open>pLimit(ConcurrencyLimit)\<close> with \<open>ConcurrencyLimit = 1\<close>:
  the tasks run one after the other, in the order of the queries. The first task that does
  not return ends the wait; what the tasks still queued do to the world after that is not
  part of the result.
\<close>

fun runBranches ::
  "(ResearchProgress \<Rightarrow> SerpQuery \<Rightarrow> 'w state \<Rightarrow> ResearchResult outcome \<times> ResearchProgress \<times> 'w state)
     \<Rightarrow> SerpQuery list \<Rightarrow> ResearchProgress \<Rightarrow> 'w state
     \<Rightarrow> ResearchResult list outcome \<times> ResearchProgress \<times> 'w state" where
  "runBranches branch [] progress s = (Returns [], progress, s)"
| "runBranches branch (serpQuery # rest) progress s =
     (case branch progress serpQuery s of
        (Returns r, progress1, s1) \<Rightarrow>
          (case runBranches branch rest progress1 s1 of
             (Returns rs, progress2, s2) \<Rightarrow> (Returns (r # rs), progress2, s2)
           | (Throws e, progress2, s2) \<Rightarrow> (Throws e, progress2, s2)
           | (Hangs, progress2, s2) \<Rightarrow> (Hangs, progress2, s2)
           | (TooDeep, progress2, s2) \<Rightarrow> (TooDeep, progress2, s2))
      | (Throws e, progress1, s1) \<Rightarrow> (Throws e, progress1, s1)
      | (Hangs, progress1, s1) \<Rightarrow> (Hangs, progress1, s1)
      | (TooDeep, progress1, s1) \<Rightarrow> (TooDeep, progress1, s1))"

definition aggregate :: "ResearchResult list \<Rightarrow> ResearchResult" where
  "aggregate results =
     \<lparr>learnings = uniqueBy (\<lambda>l. l) (concat (map learnings results)),
      visitedUrls = uniqueBy ref (concat (map visitedUrls results))\<rparr>"

text \<open>
  \<open>deepResearch\<close>. The first argument bounds the nesting of invocations: with bound \<open>n\<close> the
  invocation and the invocations nested in it may be \<open>n\<close> deep, and \<open>TooDeep\<close> is the
  outcome when that is not enough.
\<close>

fun deepResearch ::
  "nat \<Rightarrow> 'w env \<Rightarrow> 'w observer option \<Rightarrow> jsstring \<Rightarrow> int \<Rightarrow> int \<Rightarrow> jsstring list \<Rightarrow> UrlWithSummary list
     \<Rightarrow> 'w state \<Rightarrow> ResearchResult outcome \<times> 'w state" where
  "deepResearch 0 env onProgress topic breadth depth learnings0 visitedUrls0 s = (TooDeep, s)"
| "deepResearch (Suc n) env onProgress topic breadth depth learnings0 visitedUrls0 s =
     (case generateSerpQueries env topic breadth learnings0 s of
        (Throws e, s1) \<Rightarrow> (Throws e, s1)
      | (Hangs, s1) \<Rightarrow> (Hangs, s1)
      | (TooDeep, s1) \<Rightarrow> (TooDeep, s1)
      | (Returns serpQueries, s1) \<Rightarrow>
          (case reportProgress onProgress (updateQueries serpQueries) (initialProgress depth breadth) s1 of
             (Throws e, progress, s2) \<Rightarrow> (Throws e, s2)
           | (Hangs, progress, s2) \<Rightarrow> (Hangs, s2)
           | (TooDeep, progress, s2) \<Rightarrow> (TooDeep, s2)
           | (Returns _, progress, s2) \<Rightarrow>
               (case runBranches
                       (researchBranch (deepResearch n env onProgress) env onProgress breadth depth
                          learnings0 visitedUrls0)
                       serpQueries progress s2 of
                  (Returns results, progress', s3) \<Rightarrow> (Returns (aggregate results), s3)
                | (Throws e, progress', s3) \<Rightarrow> (Throws e, s3)
                | (Hangs, progress', s3) \<Rightarrow> (Hangs, s3)
                | (TooDeep, progress', s3) \<Rightarrow> (TooDeep, s3))))"

subsection \<open>A stand-in world for the closed instances\<close>

text \<open>
  The model proposes the two queries \<open>q1\<close> and \<open>q2\<close>, every search finds the same page
  with the title \<open>Example\<close>, and the learning drawn from a search is its query. The world
  counts the searches made.
\<close>

definition demoItem :: SearchItem where
  "demoItem = \<lparr>doc_url = Some (ascii ''u''), doc_markdown = Some (ascii ''m''),
               doc_metadata = Some \<lparr>title = Some (ascii ''Example''), description = None\<rparr>\<rparr>"

definition demoEnv :: "nat env" where
  "demoEnv =
     \<lparr>tokenCount = unitTokens, splitter = wholeSplitter, defaultContextSize = 128000,
      llmQueries = (\<lambda>topic n ls w.
         (Inr [\<lparr>query = ascii ''q1'', researchGoal = ascii ''g1''\<rparr>,
               \<lparr>query = ascii ''q2'', researchGoal = ascii ''g2''\<rparr>], w)),
      search = (\<lambda>q w. (Inr [demoItem], Suc w)),
      llmSummary = (\<lambda>content w. (Inr (ascii ''s''), w)),
      llmLearnings = (\<lambda>q contents nl nf w. (Inr \<lparr>new_learnings = [q], followUpQuestions = []\<rparr>, w))\<rparr>"

text \<open>A result with a url and nothing to summarise it by: a blank title, no markdown.\<close>

definition bareItem :: SearchItem where
  "bareItem = \<lparr>doc_url = Some (ascii ''u''), doc_markdown = None,
               doc_metadata = Some \<lparr>title = Some (ascii ''  ''), description = None\<rparr>\<rparr>"

definition start :: "nat state" where
  "start = \<lparr>world = 0, nextRef = 0, notified = []\<rparr>"

text \<open>
  Variations: a search that fails for \<open>q1\<close>; a search that works once and then times out;
  a page without metadata and a summary model that always fails; and three observers.
\<close>

definition q1 :: SerpQuery where
  "q1 = \<lparr>query = ascii ''q1'', researchGoal = ascii ''g1''\<rparr>"

definition q2 :: SerpQuery where
  "q2 = \<lparr>query = ascii ''q2'', researchGoal = ascii ''g2''\<rparr>"

definition flakyEnv :: "nat env" where
  "flakyEnv =
     demoEnv\<lparr>search := (\<lambda>q w. if q = ascii ''q1'' then (Inl TimeoutError, Suc w) else (Inr [demoItem], Suc w))\<rparr>"

definition fadingEnv :: "nat env" where
  "fadingEnv =
     demoEnv\<lparr>search := (\<lambda>q w. if w = 0 then (Inr [demoItem], Suc w) else (Inl TimeoutError, Suc w))\<rparr>"

definition plainItem :: SearchItem where
  "plainItem = \<lparr>doc_url = Some (ascii ''u''), doc_markdown = Some (ascii ''m''), doc_metadata = None\<rparr>"

definition mutedEnv :: "nat env" where
  "mutedEnv = demoEnv\<lparr>search := (\<lambda>q w. (Inr [plainItem], Suc w)),
                      llmSummary := (\<lambda>content w. (Inl TimeoutError, w))\<rparr>"

text \<open>
  A page whose markdown is the end-of-text marker, in a world whose tokenizer rejects it.
\<close>

definition specialItem :: SearchItem where
  "specialItem = \<lparr>doc_url = Some (ascii ''u''), doc_markdown = Some (ascii ''<|endoftext|>''),
                  doc_metadata = None\<rparr>"

definition strictEnv :: "nat env" where
  "strictEnv = demoEnv\<lparr>tokenCount := strictTokens, search := (\<lambda>q w. (Inr [specialItem], Suc w))\<rparr>"

definition quietObserver :: "nat observer" where
  "quietObserver p w = (None, w)"

definition throwingObserver :: "nat observer" where
  "throwingObserver p w = (Some OtherError, w)"

definition lateObserver :: "nat observer" where
  "lateObserver p w = (if completedQueries p > 0 then Some OtherError else None, w)"

subsection \<open>Notions used in the statements\<close>

text \<open>An observer that always returns and leaves the world alone.\<close>

definition quiet :: "'w observer \<Rightarrow> bool" where
  "quiet observer \<longleftrightarrow> (\<forall>p w. observer p w = (None, w))"

text \<open>Two states that differ at most in the snapshots handed to the observer, and two runs
  that end the same way in such states.\<close>

definition sameButLog :: "'w state \<Rightarrow> 'w state \<Rightarrow> bool" where
  "sameButLog s t \<longleftrightarrow> world s = world t \<and> nextRef s = nextRef t"

definition sameRun :: "'a outcome \<times> 'w state \<Rightarrow> 'a outcome \<times> 'w state \<Rightarrow> bool" where
  "sameRun a b \<longleftrightarrow> fst a = fst b \<and> sameButLog (snd a) (snd b)"

definition sameStep ::
  "'a outcome \<times> ResearchProgress \<times> 'w state \<Rightarrow> 'a outcome \<times> ResearchProgress \<times> 'w state \<Rightarrow> bool" where
  "sameStep a b \<longleftrightarrow> fst a = fst b \<and> fst (snd a) = fst (snd b) \<and> sameButLog (snd (snd a)) (snd (snd b))"

text \<open>A call that ends: it returns or throws. \<open>stuck True\<close> is \<open>Hangs\<close>, \<open>stuck False\<close> is
  \<open>TooDeep\<close>.\<close>

definition stuck :: "bool \<Rightarrow> 'a outcome \<Rightarrow> bool" where
  "stuck hang out = (if hang then out = Hangs else out = TooDeep)"

definition completes :: "'a outcome \<Rightarrow> bool" where
  "completes out = (case out of Returns r \<Rightarrow> True | Throws e \<Rightarrow> True | Hangs \<Rightarrow> False | TooDeep \<Rightarrow> False)"

lemmas model_defs =
  generateSerpQueries_def processSerpResult_def selectSummary_def newUrl_def reportProgress_def
  tryBlock_def researchBranch_def aggregate_def initialProgress_def updateQueries_def
  updateDeeper_def updateDone_def emptyResult_def usable_def
  ensureSummary_def truncate150_def markdownFallback_def slice0_def uniqueBy_def compactStrings_def
  compactObjects_def ceilHalf_def ellipsis_def noSummary_def nextQuery_def js_trim_def
  isWhiteSpace_def ascii_def trimPrompt_step_def MinChunkSize_def List.map_filter_def Let_def

lemmas demo_defs = demoEnv_def demoItem_def start_def unitTokens_def wholeSplitter_def trimPrompt.simps
  q1_def q2_def

section \<open>The trimmer: termination and bounds\<close>

lemma trimPrompt_step_shrinks:
  assumes "splitter_nonexpanding splitText"
    and "trimPrompt_step encode splitText prompt contextSize = Recurse next"
  shows "length next < length prompt"
proof -
  from assms(2) obtain tokens where ne: "prompt \<noteq> []" and enc: "encode prompt = Inr tokens"
    by (auto simp: trimPrompt_step_def split: if_splits sum.splits)
  let ?cs = "int (length prompt) - (int tokens - contextSize) * 3"
  let ?tp = "(case splitText ?cs prompt of [] \<Rightarrow> [] | c # _ \<Rightarrow> c)"
  from assms(2) ne enc have over: "\<not> int tokens \<le> contextSize" and big: "\<not> ?cs < MinChunkSize"
    by (auto simp: trimPrompt_step_def Let_def split: if_splits)
  from assms(2) ne enc over big have nxt:
    "next = (if length ?tp = length prompt then take (nat ?cs) prompt else ?tp)"
    by (auto simp: trimPrompt_step_def Let_def split: if_splits)
  have le: "length ?tp \<le> length prompt"
    using assms(1) by (auto simp: splitter_nonexpanding_def split: list.splits)
  show ?thesis
  proof (cases "length ?tp = length prompt")
    case True
    have "nat ?cs < length prompt" using over big by (simp add: MinChunkSize_def)
    with True nxt show ?thesis by simp
  next
    case False
    with le nxt show ?thesis by simp
  qed
qed

lemma trimPrompt_step_bound:
  assumes "trimPrompt_step encode splitText prompt contextSize = Return r"
  shows "tokensWithin encode r contextSize \<or> length r \<le> 140"
  using assms
  by (auto simp: trimPrompt_step_def tokensWithin_def Let_def MinChunkSize_def split: if_splits sum.splits)

lemma trimPrompt_step_fail:
  assumes "trimPrompt_step encode splitText prompt contextSize = Fail e"
  shows "prompt \<noteq> [] \<and> encode prompt = Inl e"
  using assms
  by (auto simp: trimPrompt_step_def Let_def split: if_splits sum.splits)

lemma trimPrompt_within_sound:
  "trimPrompt_within n encode splitText prompt contextSize = Some y \<Longrightarrow>
   trimPrompt encode splitText prompt contextSize = Some y"
proof (induction n arbitrary: prompt)
  case 0
  then show ?case by (subst trimPrompt.simps) (auto split: trim_step.splits)
next
  case (Suc n)
  then show ?case by (subst trimPrompt.simps) (auto split: trim_step.splits)
qed

lemma trimPrompt_within_total:
  assumes "splitter_nonexpanding splitText"
  shows "length prompt \<le> n \<Longrightarrow>
    \<exists>out. trimPrompt_within n encode splitText prompt contextSize = Some out \<and>
      (\<forall>result. out = Inr result \<longrightarrow> tokensWithin encode result contextSize \<or> length result \<le> 140) \<and>
      (\<forall>e. out = Inl e \<longrightarrow> (\<exists>t. t \<noteq> [] \<and> length t \<le> length prompt \<and> encode t = Inl e))"
proof (induction n arbitrary: prompt)
  case 0
  then have "prompt = []" by simp
  then show ?case by (simp add: trimPrompt_step_def)
next
  case (Suc n)
  show ?case
  proof (cases "trimPrompt_step encode splitText prompt contextSize")
    case (Return r)
    then show ?thesis using trimPrompt_step_bound[OF Return] by simp
  next
    case (Fail e)
    then show ?thesis using trimPrompt_step_fail[OF Fail] by auto
  next
    case (Recurse p)
    from trimPrompt_step_shrinks[OF assms Recurse] Suc.prems have l: "length p \<le> n" "length p \<le> length prompt"
      by simp_all
    from Suc.IH[OF l(1)] obtain out where
      o: "trimPrompt_within n encode splitText p contextSize = Some out"
        "\<forall>result. out = Inr result \<longrightarrow> tokensWithin encode result contextSize \<or> length result \<le> 140"
        "\<forall>e. out = Inl e \<longrightarrow> (\<exists>t. t \<noteq> [] \<and> length t \<le> length p \<and> encode t = Inl e)"
      by blast
    have "\<forall>e. out = Inl e \<longrightarrow> (\<exists>t. t \<noteq> [] \<and> length t \<le> length prompt \<and> encode t = Inl e)"
    proof (intro allI impI)
      fix e assume "out = Inl e"
      with o(3) obtain t where t: "t \<noteq> []" "length t \<le> length p" "encode t = Inl e" by blast
      from t(2) l(2) have "length t \<le> length prompt" by simp
      with t show "\<exists>t. t \<noteq> [] \<and> length t \<le> length prompt \<and> encode t = Inl e" by blast
    qed
    with o Recurse show ?thesis by simp
  qed
qed

lemma trimPrompt_total:
  assumes "splitter_nonexpanding splitText"
  shows "\<exists>y. trimPrompt encode splitText prompt contextSize = Some y"
  using trimPrompt_within_total[OF assms order_refl] trimPrompt_within_sound by blast

lemma trimPrompt_step_return_prefix:
  "trimPrompt_step encode splitText prompt contextSize = Return r \<Longrightarrow> prefix r prompt"
  by (auto simp: trimPrompt_step_def Let_def split: if_splits sum.splits intro: take_is_prefix)

lemma trimPrompt_step_recurse_piece:
  assumes "trimPrompt_step encode splitText prompt contextSize = Recurse p"
  shows "(\<exists>n. p = take n prompt) \<or> (\<exists>n cs. splitText n prompt = p # cs)"
  using assms
  by (auto simp: trimPrompt_step_def Let_def split: if_splits sum.splits list.splits)

lemma trimPrompt_within_related:
  assumes refl: "\<And>x. R x x"
    and trans: "\<And>x y z. R x y \<Longrightarrow> R y z \<Longrightarrow> R x z"
    and pre: "\<And>x y. prefix x y \<Longrightarrow> R x y"
    and split: "\<And>n s c cs. splitText n s = c # cs \<Longrightarrow> R c s"
  shows "trimPrompt_within n encode splitText prompt contextSize = Some (Inr y) \<Longrightarrow> R y prompt"
proof (induction n arbitrary: prompt)
  case 0
  then show ?case by (auto split: trim_step.splits dest!: trimPrompt_step_return_prefix intro: pre)
next
  case (Suc n)
  show ?case
  proof (cases "trimPrompt_step encode splitText prompt contextSize")
    case (Return r)
    with Suc.prems show ?thesis by (auto dest!: trimPrompt_step_return_prefix intro: pre)
  next
    case (Fail e)
    with Suc.prems show ?thesis by simp
  next
    case (Recurse p)
    with Suc.prems have "trimPrompt_within n encode splitText p contextSize = Some (Inr y)" by simp
    from Suc.IH[OF this] have 1: "R y p" .
    from trimPrompt_step_recurse_piece[OF Recurse] have "R p prompt"
      by (auto intro: pre split take_is_prefix)
    with 1 show ?thesis by (rule trans)
  qed
qed

lemma dropWhile_prefix:
  assumes "prefix b c"
  shows "dropWhile P b = [] \<or> prefix (dropWhile P b) (dropWhile P c)"
proof -
  from assms obtain t where c: "c = b @ t" by (auto simp: prefix_def)
  show ?thesis
  proof (cases "\<forall>x \<in> set b. P x")
    case True
    then show ?thesis by simp
  next
    case False
    then obtain x where "x \<in> set b" "\<not> P x" by blast
    then have "dropWhile P (b @ t) = dropWhile P b @ t" by (rule dropWhile_append1)
    with c show ?thesis by simp
  qed
qed

lemma dropWhile_of_prefix_dropWhile:
  assumes "prefix b (dropWhile P c)"
  shows "dropWhile P b = b"
proof (cases b)
  case Nil
  then show ?thesis by simp
next
  case (Cons x xs)
  with assms obtain t where d: "dropWhile P c = x # xs @ t" by (auto simp: prefix_def)
  then have "dropWhile P c \<noteq> []" by simp
  from hd_dropWhile[OF this] d have "\<not> P x" by simp
  with Cons show ?thesis by simp
qed

lemma prefixLike_refl: "prefixLike x x"
  by (simp add: prefixLike_def)

lemma prefixLike_trans:
  assumes "prefixLike a b" and "prefixLike b c"
  shows "prefixLike a c"
proof -
  let ?dw = "dropWhile isWhiteSpace"
  consider (pp) "prefix a b" "prefix b c" | (pd) "prefix a b" "prefix b (?dw c)"
    | (dp) "prefix a (?dw b)" "prefix b c" | (dd) "prefix a (?dw b)" "prefix b (?dw c)"
    using assms by (auto simp: prefixLike_def)
  then show ?thesis
  proof cases
    case pp
    then show ?thesis by (auto simp: prefixLike_def)
  next
    case pd
    then show ?thesis by (auto simp: prefixLike_def)
  next
    case dp
    from dropWhile_prefix[OF dp(2), of isWhiteSpace]
    show ?thesis
    proof
      assume "?dw b = []"
      with dp(1) have "a = []" by simp
      then show ?thesis by (simp add: prefixLike_def)
    next
      assume "prefix (?dw b) (?dw c)"
      with dp(1) have "prefix a (?dw c)" by (rule prefix_order.order_trans)
      then show ?thesis by (simp add: prefixLike_def)
    qed
  next
    case dd
    from dropWhile_of_prefix_dropWhile[OF dd(2)] dd show ?thesis
      by (auto simp: prefixLike_def)
  qed
qed

lemma js_trim_prefixLike: "prefix p s \<Longrightarrow> prefixLike (js_trim p) s"
proof -
  assume p: "prefix p s"
  have "prefix (js_trim p) (dropWhile isWhiteSpace p)"
    unfolding js_trim_def
    by (metis append_take_drop_id dropWhile_eq_drop prefixI rev_append rev_rev_ident suffix_def suffix_to_prefix)
  then have a: "prefixLike (js_trim p) (dropWhile isWhiteSpace p)" by (simp add: prefixLike_def)
  have b: "prefixLike (dropWhile isWhiteSpace p) s"
    using dropWhile_prefix[OF p, of isWhiteSpace]
  proof
    assume e: "dropWhile isWhiteSpace p = []"
    have "prefix (dropWhile isWhiteSpace p) s" unfolding e by simp
    then show ?thesis by (simp add: prefixLike_def)
  next
    assume "prefix (dropWhile isWhiteSpace p) (dropWhile isWhiteSpace s)"
    then show ?thesis by (simp add: prefixLike_def)
  qed
  from a b show ?thesis by (rule prefixLike_trans)
qed

lemma hardCut_first: "s \<noteq> [] \<Longrightarrow> 0 < n \<Longrightarrow> hardCut n s = take n s # hardCut n (drop n s)"
  by (cases s) auto

lemma hardCut_head: "hardCut n s = c # cs \<Longrightarrow> c = s \<or> c = take n s"
  by (cases s) (auto split: if_splits)

lemma wholeSplitter_prefix: "splitter_prefix wholeSplitter"
  by (simp add: splitter_prefix_def wholeSplitter_def)

lemma cutSplitter_prefix: "splitter_prefix cutSplitter"
  unfolding splitter_prefix_def cutSplitter_def
  by (auto dest!: hardCut_head intro: take_is_prefix)

lemma trimmingSplitter_prefixLike: "splitter_prefixLike trimmingSplitter"
  unfolding splitter_prefixLike_def trimmingSplitter_def
proof (intro allI impI)
  fix n s c cs assume "map js_trim (hardCut (nat n) s) = c # cs"
  then obtain d ds where "hardCut (nat n) s = d # ds" "c = js_trim d" by auto
  with hardCut_head[of "nat n" s d ds] show "prefixLike c s"
    by (auto intro: js_trim_prefixLike take_is_prefix)
qed

lemma splitter_prefix_nonexpanding: "splitter_prefix splitText \<Longrightarrow> splitter_nonexpanding splitText"
  by (auto simp: splitter_prefix_def splitter_nonexpanding_def dest: prefix_length_le)

lemma prefixLike_length: "prefixLike r s \<Longrightarrow> length r \<le> length s"
proof -
  assume "prefixLike r s"
  then consider "prefix r s" | "prefix r (dropWhile isWhiteSpace s)" by (auto simp: prefixLike_def)
  then show ?thesis
  proof cases
    case 1 then show ?thesis by (rule prefix_length_le)
  next
    case 2
    then have "length r \<le> length (dropWhile isWhiteSpace s)" by (rule prefix_length_le)
    also have "\<dots> \<le> length s" by (rule length_dropWhile_le)
    finally show ?thesis .
  qed
qed

lemma splitter_prefixLike_nonexpanding:
  "splitter_prefixLike splitText \<Longrightarrow> splitter_nonexpanding splitText"
  by (auto simp: splitter_prefixLike_def splitter_nonexpanding_def dest: prefixLike_length)

lemma wholeSplitter_nonexpanding: "splitter_nonexpanding wholeSplitter"
  by (simp add: splitter_nonexpanding_def wholeSplitter_def)

text \<open>
  C6, as the code has it. Provided the first chunk of the splitter is never longer than the
  text it was given, \<open>trimPrompt\<close> ends for every text and every budget after at most as
  many recursive calls as the text has code units: it returns, or it throws the exception
  of the tokenizer on a text, not longer than the input, that it was called on. Every
  recursive call is on a text with strictly fewer code units (the hard cut of the safety
  net as well as the first chunk); the number of tokens is not what decreases. A text
  returned has at most \<open>contextSize\<close> tokens or at most 140 code units.
\<close>

theorem trimPrompt_terminates_bounded:
  assumes "splitter_nonexpanding splitText"
  shows "\<exists>out.
      trimPrompt encode splitText prompt contextSize = Some out \<and>
      trimPrompt_within (length prompt) encode splitText prompt contextSize = Some out \<and>
      (\<forall>result. out = Inr result \<longrightarrow> tokensWithin encode result contextSize \<or> length result \<le> 140) \<and>
      (\<forall>e. out = Inl e \<longrightarrow> (\<exists>t. t \<noteq> [] \<and> length t \<le> length prompt \<and> encode t = Inl e)) \<and>
      (\<forall>next. trimPrompt_step encode splitText prompt contextSize = Recurse next \<longrightarrow>
         length next < length prompt)"
proof -
  from trimPrompt_within_total[OF assms order_refl, of prompt encode contextSize] obtain out where
    y: "trimPrompt_within (length prompt) encode splitText prompt contextSize = Some out"
      "\<forall>result. out = Inr result \<longrightarrow> tokensWithin encode result contextSize \<or> length result \<le> 140"
      "\<forall>e. out = Inl e \<longrightarrow> (\<exists>t. t \<noteq> [] \<and> length t \<le> length prompt \<and> encode t = Inl e)"
    by blast
  have s: "\<forall>next. trimPrompt_step encode splitText prompt contextSize = Recurse next \<longrightarrow>
         length next < length prompt"
    using trimPrompt_step_shrinks[OF assms] by blast
  from trimPrompt_within_sound[OF y(1)] y s show ?thesis by (intro exI[of _ out] conjI)
qed

lemma demo_step_200:
  "trimPrompt_step unitTokens wholeSplitter (replicate 200 0x61) 190 = Recurse (replicate 170 0x61)"
  by (simp add: trimPrompt_step_def unitTokens_def wholeSplitter_def MinChunkSize_def Let_def)

lemma demo_step_170:
  "trimPrompt_step unitTokens splitText (replicate 170 0x61) 190 = Return (replicate 170 0x61)"
  by (simp add: trimPrompt_step_def unitTokens_def MinChunkSize_def Let_def)

lemma demo_trim_200:
  "trimPrompt unitTokens wholeSplitter (replicate 200 0x61) 190 = Some (Inr (replicate 170 0x61))"
  by (simp add: trimPrompt.simps demo_step_200 demo_step_170)

lemma strict_rejects: "strictTokens (ascii ''<|endoftext|>'') = Inl OtherError"
  by (simp add: strictTokens_def)

lemma demo_trim_special:
  "trimPrompt strictTokens wholeSplitter (ascii ''<|endoftext|>'') 10 = Some (Inl OtherError)"
  by (simp add: trimPrompt.simps trimPrompt_step_def strict_rejects) (simp add: ascii_def)

theorem trimPrompt_terminates_bounded_witness:
  "splitter_nonexpanding wholeSplitter \<and>
   trimPrompt unitTokens wholeSplitter (replicate 200 0x61) 190 = Some (Inr (replicate 170 0x61)) \<and>
   trimPrompt_within 200 unitTokens wholeSplitter (replicate 200 0x61) 190 = Some (Inr (replicate 170 0x61)) \<and>
   trimPrompt_step unitTokens wholeSplitter (replicate 200 0x61) 190 = Recurse (replicate 170 0x61) \<and>
   tokensWithin unitTokens (replicate 170 0x61) 190 \<and>
   trimPrompt strictTokens wholeSplitter (ascii ''<|endoftext|>'') 10 = Some (Inl OtherError) \<and>
   strictTokens (ascii ''<|endoftext|>'') = Inl OtherError"
  using trimPrompt_terminates_bounded[OF wholeSplitter_nonexpanding, of unitTokens "replicate 200 0x61" 190]
    wholeSplitter_nonexpanding demo_step_200 demo_trim_200 demo_trim_special strict_rejects
  by (simp add: tokensWithin_def unitTokens_def)

lemma cut_step_1000:
  "trimPrompt_step quarterTokens cutSplitter (replicate 1000 0x61) 249 = Recurse (replicate 997 0x61)"
  by (simp add: trimPrompt_step_def quarterTokens_def cutSplitter_def MinChunkSize_def Let_def hardCut_first)

text \<open>
  C6 as the specification states it fails in what shrinks. The tokenizer here makes a
  token of every four code units. For a text of 1000 code units and the budget 249 the
  recursive call is on the first chunk of the splitter, which has 997 code units (the
  safety net does not fire), and the chunk has as many tokens, 250, as the text.
\<close>

theorem trimPrompt_tokens_need_not_shrink_counterexample:
  "trimPrompt_step quarterTokens cutSplitter (replicate 1000 0x61) 249 = Recurse (replicate 997 0x61) \<and>
   hd (cutSplitter 997 (replicate 1000 0x61)) = replicate 997 0x61 \<and>
   length (replicate 997 (0x61 :: 16 word)) \<noteq> length (replicate 1000 (0x61 :: 16 word)) \<and>
   quarterTokens (replicate 1000 0x61) = Inr 250 \<and>
   quarterTokens (replicate 997 0x61) = Inr 250"
  by (simp add: cut_step_1000 quarterTokens_def cutSplitter_def hardCut_first)

text \<open>
  C2, as the code has it. The floor of 140 code units is returned without looking at the
  budget again, and the tokenizer may throw. So, provided the first chunk of the splitter is
  never longer than its input, \<open>trimPrompt\<close> ends for every text and every budget, and
  \<^item> a text returned has at most \<open>contextSize\<close> tokens or at most 140 code units;
  \<^item> it is a prefix of the input when the first chunk of the splitter is a prefix of its
    input (every cut \<open>trimPrompt\<close> makes itself is \<open>slice(0, n)\<close>);
  \<^item> it is a prefix of the input, or of the input without its leading white space, when
    the first chunk of the splitter is;
  \<^item> it is a contiguous piece of the input when the first chunk of the splitter is;
  \<^item> an exception thrown is the one of the tokenizer on a text that is not empty and not
    longer than the input.
\<close>

theorem trimPrompt_floor_or_budget:
  assumes "splitter_nonexpanding splitText"
  shows "\<exists>out. trimPrompt encode splitText prompt contextSize = Some out \<and>
     (\<forall>result. out = Inr result \<longrightarrow>
        (tokensWithin encode result contextSize \<or> length result \<le> 140) \<and>
        (splitter_prefix splitText \<longrightarrow> prefix result prompt) \<and>
        (splitter_prefixLike splitText \<longrightarrow> prefixLike result prompt) \<and>
        (splitter_contiguous splitText \<longrightarrow> sublist result prompt)) \<and>
     (\<forall>e. out = Inl e \<longrightarrow> (\<exists>t. t \<noteq> [] \<and> length t \<le> length prompt \<and> encode t = Inl e))"
proof -
  from trimPrompt_within_total[OF assms order_refl, of prompt encode contextSize] obtain out where
    y: "trimPrompt_within (length prompt) encode splitText prompt contextSize = Some out"
      "\<forall>result. out = Inr result \<longrightarrow> tokensWithin encode result contextSize \<or> length result \<le> 140"
      "\<forall>e. out = Inl e \<longrightarrow> (\<exists>t. t \<noteq> [] \<and> length t \<le> length prompt \<and> encode t = Inl e)"
    by blast
  have p: "prefix result prompt" if "out = Inr result" "splitter_prefix splitText" for result
    by (rule trimPrompt_within_related[where R = prefix and splitText = splitText,
          OF _ _ _ _ y(1)[unfolded that(1)]])
       (use that(2) in \<open>auto simp: splitter_prefix_def\<close>)
  have pl: "prefixLike result prompt" if o: "out = Inr result" and sp: "splitter_prefixLike splitText"
    for result
  proof (rule trimPrompt_within_related[where R = prefixLike and splitText = splitText,
          OF _ _ _ _ y(1)[unfolded o]])
    show "prefixLike x x" for x by (rule prefixLike_refl)
    show "prefixLike x z" if "prefixLike x y" "prefixLike y z" for x y z
      using that by (rule prefixLike_trans)
    show "prefixLike x y" if "prefix x y" for x y using that by (simp add: prefixLike_def)
    show "prefixLike c s" if "splitText n s = c # cs" for n s c cs
      using sp that unfolding splitter_prefixLike_def by blast
  qed
  have sl: "sublist result prompt" if o: "out = Inr result" and sp: "splitter_contiguous splitText"
    for result
  proof (rule trimPrompt_within_related[where R = sublist and splitText = splitText,
          OF _ _ _ _ y(1)[unfolded o]])
    show "sublist x x" for x :: jsstring by simp
    show "sublist x z" if "sublist x y" "sublist y z" for x y z :: jsstring
      using that by (rule sublist_order.order_trans)
    show "sublist x y" if "prefix x y" for x y :: jsstring using that by (rule prefix_imp_sublist)
    show "sublist c s" if "splitText n s = c # cs" for n s c cs
      using sp that unfolding splitter_contiguous_def by blast
  qed
  from trimPrompt_within_sound[OF y(1)] y(2,3) p pl sl show ?thesis
    by (intro exI[of _ out] conjI allI impI) auto
qed

lemma floor_trim_200:
  "trimPrompt unitTokens wholeSplitter (replicate 200 0x61) 10 = Some (Inr (replicate 140 0x61))"
  by (simp add: trimPrompt.simps trimPrompt_step_def unitTokens_def MinChunkSize_def Let_def)

lemma padded_js_trim: "js_trim (replicate 5 0x20 @ replicate 255 0x61) = replicate 255 0x61"
  by (simp add: js_trim_def dropWhile_append isWhiteSpace_def)

lemma padded_step:
  "trimPrompt_step unitTokens trimmingSplitter (replicate 5 0x20 @ replicate 300 0x61) 290 =
     Recurse (replicate 255 0x61)"
  by (simp add: trimPrompt_step_def unitTokens_def trimmingSplitter_def MinChunkSize_def Let_def
        hardCut_first padded_js_trim)

lemma padded_trim:
  "trimPrompt unitTokens trimmingSplitter (replicate 5 0x20 @ replicate 300 0x61) 290 =
     Some (Inr (replicate 255 0x61))"
  by (simp add: trimPrompt.simps padded_step) (simp add: trimPrompt_step_def unitTokens_def)

lemma padded_not_prefix:
  "\<not> prefix (replicate 255 (0x61 :: 16 word)) (replicate 5 0x20 @ replicate 300 0x61)"
proof -
  have "replicate 255 (0x61 :: 16 word) = 0x61 # replicate 254 0x61"
    and "replicate 5 (0x20 :: 16 word) = 0x20 # replicate 4 0x20"
    by (simp_all add: numeral_eq_Suc)
  then show ?thesis by simp
qed

theorem trimPrompt_floor_or_budget_witness:
  "splitter_nonexpanding wholeSplitter \<and> splitter_prefix wholeSplitter \<and>
   trimPrompt unitTokens wholeSplitter (replicate 200 0x61) 190 = Some (Inr (replicate 170 0x61)) \<and>
   tokensWithin unitTokens (replicate 170 0x61) 190 \<and>
   prefix (replicate 170 0x61) (replicate 200 (0x61 :: 16 word)) \<and>
   trimPrompt unitTokens wholeSplitter (replicate 200 0x61) 10 = Some (Inr (replicate 140 0x61)) \<and>
   prefix (replicate 140 0x61) (replicate 200 (0x61 :: 16 word)) \<and>
   splitter_nonexpanding trimmingSplitter \<and> splitter_prefixLike trimmingSplitter \<and>
   trimPrompt unitTokens trimmingSplitter (replicate 5 0x20 @ replicate 300 0x61) 290 =
     Some (Inr (replicate 255 0x61)) \<and>
   prefixLike (replicate 255 0x61) (replicate 5 0x20 @ replicate 300 0x61) \<and>
   \<not> prefix (replicate 255 (0x61 :: 16 word)) (replicate 5 0x20 @ replicate 300 0x61) \<and>
   trimPrompt strictTokens wholeSplitter (ascii ''<|endoftext|>'') 10 = Some (Inl OtherError) \<and>
   strictTokens (ascii ''<|endoftext|>'') = Inl OtherError"
  using trimPrompt_floor_or_budget[OF wholeSplitter_nonexpanding, of unitTokens "replicate 200 0x61" 190]
    trimPrompt_floor_or_budget[OF wholeSplitter_nonexpanding, of unitTokens "replicate 200 0x61" 10]
    trimPrompt_floor_or_budget[OF splitter_prefixLike_nonexpanding[OF trimmingSplitter_prefixLike],
      of unitTokens "replicate 5 0x20 @ replicate 300 0x61" 290]
    wholeSplitter_nonexpanding wholeSplitter_prefix trimmingSplitter_prefixLike
    splitter_prefixLike_nonexpanding[OF trimmingSplitter_prefixLike]
    demo_trim_200 floor_trim_200 padded_trim padded_not_prefix demo_trim_special strict_rejects
  by (simp add: tokensWithin_def unitTokens_def)

text \<open>
  C2 as the specification states it fails. The tokenizer here makes a token of every code
  unit. The one-letter text \<open>a\<close> is one token for it (as for any tokenizer that gives a
  text that is not empty at least one token), and with the budget 0 it comes back whole; a
  text of 200 code units comes back, for the budget 10, as its first 140 code units, which
  are 140 tokens. And with a tokenizer that rejects the end-of-text marker, \<open>trimPrompt\<close>
  of that marker throws.
\<close>

theorem trimPrompt_over_budget_counterexample:
  "trimPrompt unitTokens wholeSplitter (ascii ''a'') 0 = Some (Inr (ascii ''a'')) \<and>
   unitTokens (ascii ''a'') = Inr 1 \<and>
   \<not> tokensWithin unitTokens (ascii ''a'') 0 \<and>
   trimPrompt unitTokens wholeSplitter (replicate 200 0x61) 10 = Some (Inr (replicate 140 0x61)) \<and>
   unitTokens (replicate 140 0x61) = Inr 140 \<and>
   \<not> tokensWithin unitTokens (replicate 140 0x61) 10 \<and>
   trimPrompt strictTokens wholeSplitter (ascii ''<|endoftext|>'') 10 = Some (Inl OtherError)"
  by (simp add: floor_trim_200 demo_trim_special tokensWithin_def)
     (simp add: trimPrompt.simps trimPrompt_step_def unitTokens_def ascii_def MinChunkSize_def Let_def)

text \<open>
  X1. A text whose token count is within the budget comes back unchanged, whatever the
  splitter does.
\<close>

theorem trimPrompt_unchanged_within_budget:
  assumes "tokensWithin encode prompt contextSize"
  shows "trimPrompt encode splitText prompt contextSize = Some (Inr prompt)"
  using assms
  by (subst trimPrompt.simps) (auto simp: trimPrompt_step_def tokensWithin_def split: sum.splits)

theorem trimPrompt_unchanged_within_budget_witness:
  "tokensWithin unitTokens (ascii ''abc'') 3 \<and>
   trimPrompt unitTokens wholeSplitter (ascii ''abc'') 3 = Some (Inr (ascii ''abc''))"
  using trimPrompt_unchanged_within_budget[of unitTokens "ascii ''abc''" 3 wholeSplitter]
  by (simp add: tokensWithin_def unitTokens_def ascii_def)

section \<open>The aggregate\<close>

lemma deepResearch_numeral:
  "deepResearch (numeral k) env onProgress topic breadth depth ls us s =
   deepResearch (Suc (pred_numeral k)) env onProgress topic breadth depth ls us s"
  by (simp only: numeral_eq_Suc)

lemma runBranches_append:
  "runBranches branch (xs @ ys) progress s =
     (case runBranches branch xs progress s of
        (Returns rs, progress1, s1) \<Rightarrow>
          (case runBranches branch ys progress1 s1 of
             (Returns rs', progress2, s2) \<Rightarrow> (Returns (rs @ rs'), progress2, s2)
           | (Throws e, progress2, s2) \<Rightarrow> (Throws e, progress2, s2)
           | (Hangs, progress2, s2) \<Rightarrow> (Hangs, progress2, s2)
           | (TooDeep, progress2, s2) \<Rightarrow> (TooDeep, progress2, s2))
      | (Throws e, progress1, s1) \<Rightarrow> (Throws e, progress1, s1)
      | (Hangs, progress1, s1) \<Rightarrow> (Hangs, progress1, s1)
      | (TooDeep, progress1, s1) \<Rightarrow> (TooDeep, progress1, s1))"
proof (induction xs arbitrary: progress s)
  case Nil
  show ?case by (simp split: prod.splits outcome.splits)
next
  case (Cons x xs)
  show ?case by (simp add: Cons.IH split: prod.splits outcome.splits)
qed

lemma uniqueBy_fold_set:
  "key ` set (foldl (\<lambda>acc x. if key x \<in> key ` set acc then acc else acc @ [x]) acc xs) =
   key ` (set acc \<union> set xs)"
  by (induction xs arbitrary: acc) auto

lemma uniqueBy_keys: "key ` set (uniqueBy key xs) = key ` set xs"
  by (simp add: uniqueBy_def uniqueBy_fold_set)

lemma uniqueBy_fold_distinct:
  "distinct (map key acc) \<Longrightarrow>
   distinct (map key (foldl (\<lambda>acc x. if key x \<in> key ` set acc then acc else acc @ [x]) acc xs))"
  by (induction xs arbitrary: acc) auto

lemma uniqueBy_distinct: "distinct (map key (uniqueBy key xs))"
  by (simp add: uniqueBy_def uniqueBy_fold_distinct)

lemma aggregate_learnings_set: "set (learnings (aggregate rs)) = (\<Union>r \<in> set rs. set (learnings r))"
  using uniqueBy_keys[of "\<lambda>l. l" "concat (map learnings rs)"] by (simp add: aggregate_def)

lemma aggregate_refs_set:
  "ref ` set (visitedUrls (aggregate rs)) = (\<Union>r \<in> set rs. ref ` set (visitedUrls r))"
  using uniqueBy_keys[of ref "concat (map visitedUrls rs)"] by (auto simp: aggregate_def)

lemma aggregate_drop_empty: "aggregate (rs1 @ emptyResult # rs2) = aggregate (rs1 @ rs2)"
  by (simp add: aggregate_def emptyResult_def)


text \<open>
  C1 at a failing input: breadth 2, depth 1, no observer; both searches find the same
  page. The two sources of the aggregate have the same url and the same summary: they are
  two objects, and the set of line 362 keeps both.
\<close>

theorem deepResearch_duplicate_sources:
  "deepResearch 1 demoEnv None (ascii ''t'') 2 1 [] [] start =
     (Returns \<lparr>learnings = [ascii ''q1'', ascii ''q2''],
               visitedUrls = [\<lparr>ref = 0, url = ascii ''u'', summary = ascii ''Example''\<rparr>,
                              \<lparr>ref = 1, url = ascii ''u'', summary = ascii ''Example''\<rparr>]\<rparr>,
      \<lparr>world = 2, nextRef = 2, notified = []\<rparr>)"
  by (simp add: model_defs demo_defs)

text \<open>
  X2. What the aggregate does guarantee: the learnings of a returned result are pairwise
  different strings, and its sources are pairwise different objects.
\<close>

theorem aggregate_is_deduplicated:
  assumes "deepResearch n env onProgress topic breadth depth ls us s = (Returns r, s')"
  shows "distinct (learnings r) \<and> distinct (map ref (visitedUrls r))"
proof (cases n)
  case 0
  with assms show ?thesis by simp
next
  case (Suc m)
  with assms obtain results where "r = aggregate results"
    by (auto split: prod.splits outcome.splits)
  then show ?thesis
    using uniqueBy_distinct[of "\<lambda>l. l" "concat (map learnings results)"]
      uniqueBy_distinct[of ref "concat (map visitedUrls results)"]
    by (simp add: aggregate_def)
qed

theorem aggregate_is_deduplicated_witness:
  "deepResearch 1 demoEnv None (ascii ''t'') 2 1 [ascii ''q1'', ascii ''q1''] [] start =
     (Returns \<lparr>learnings = [ascii ''q1'', ascii ''q2''],
               visitedUrls = [\<lparr>ref = 0, url = ascii ''u'', summary = ascii ''Example''\<rparr>,
                              \<lparr>ref = 1, url = ascii ''u'', summary = ascii ''Example''\<rparr>]\<rparr>,
      \<lparr>world = 2, nextRef = 2, notified = []\<rparr>) \<and>
   distinct [ascii ''q1'', ascii ''q2''] \<and> distinct [0, 1 :: nat]"
proof -
  have r: "deepResearch 1 demoEnv None (ascii ''t'') 2 1 [ascii ''q1'', ascii ''q1''] [] start =
     (Returns \<lparr>learnings = [ascii ''q1'', ascii ''q2''],
               visitedUrls = [\<lparr>ref = 0, url = ascii ''u'', summary = ascii ''Example''\<rparr>,
                              \<lparr>ref = 1, url = ascii ''u'', summary = ascii ''Example''\<rparr>]\<rparr>,
      \<lparr>world = 2, nextRef = 2, notified = []\<rparr>)"
    by (simp add: model_defs demo_defs)
  from aggregate_is_deduplicated[OF r] r show ?thesis by simp
qed

section \<open>The summary of a search result\<close>

lemma js_trim_Nil [simp]: "js_trim [] = []"
  by (simp add: js_trim_def)

lemma noSummary_not_blank: "noSummary \<noteq> [] \<and> js_trim noSummary \<noteq> []"
  by (simp add: noSummary_def js_trim_def isWhiteSpace_def)

lemma ensureSummary_not_blank: "ensureSummary c \<noteq> [] \<and> js_trim (ensureSummary c) \<noteq> []"
  using noSummary_not_blank by (auto simp: ensureSummary_def)

text \<open>
  C8. A result with a url and a title that is not blank gets the title, verbatim, as its
  summary, whatever its markdown is; the state is left as it was but for the identity of
  the new object, so the summary model was not called (the world is the same for every
  \<open>llmSummary\<close>) and the cut markdown was not used.
\<close>

theorem title_is_summary:
  assumes "doc_url item = Some u" and "u \<noteq> []"
    and "doc_metadata item = Some m" and "title m = Some t" and "js_trim t \<noteq> []"
  shows "selectSummary env item s = (Returns t, s) \<and>
         newUrl env item s =
           (Returns (Some \<lparr>ref = nextRef s, url = u, summary = t\<rparr>), s\<lparr>nextRef := Suc (nextRef s)\<rparr>)"
proof -
  from assms(5) have "t \<noteq> []" by auto
  with assms have u: "usable (Option.bind (doc_metadata item) title) = Some t"
    by (simp add: usable_def)
  then have sel: "selectSummary env item s = (Returns t, s)"
    by (simp add: selectSummary_def)
  from assms(5) \<open>t \<noteq> []\<close> have "ensureSummary t = t" by (simp add: ensureSummary_def)
  with sel assms(1,2) show ?thesis by (simp add: newUrl_def)
qed

theorem title_is_summary_witness:
  "doc_url demoItem = Some (ascii ''u'') \<and> doc_markdown demoItem = Some (ascii ''m'') \<and>
   js_trim (ascii ''Example'') \<noteq> [] \<and>
   newUrl (demoEnv\<lparr>llmSummary := (\<lambda>content w. (Inl OtherError, w + 100))\<rparr>) demoItem start =
     (Returns (Some \<lparr>ref = 0, url = ascii ''u'', summary = ascii ''Example''\<rparr>),
      \<lparr>world = 0, nextRef = 1, notified = []\<rparr>)"
  using title_is_summary[of demoItem "ascii ''u''" "\<lparr>title = Some (ascii ''Example''), description = None\<rparr>"
      "ascii ''Example''" "demoEnv\<lparr>llmSummary := (\<lambda>content w. (Inl OtherError, w + 100))\<rparr>" start]
  by (simp add: demoItem_def start_def ascii_def js_trim_def isWhiteSpace_def)

lemma selectSummary_outcome:
  "(\<exists>s1. selectSummary env item s = (Hangs, s1)) \<or> (\<exists>c s1. selectSummary env item s = (Returns c, s1))"
  by (auto simp: selectSummary_def split: option.splits prod.splits sum.splits)

lemma selectSummary_returns:
  assumes "splitter_nonexpanding (splitter env)"
  shows "\<exists>c s1. selectSummary env item s = (Returns c, s1)"
proof -
  have "\<And>m. trimPrompt (tokenCount env) (splitter env) m (defaultContextSize env) = None \<Longrightarrow> False"
    using trimPrompt_total[OF assms] by (metis option.distinct(1))
  then show ?thesis
    by (auto simp: selectSummary_def split: option.splits prod.splits sum.splits)
qed

text \<open>
  C9. The summary of a result with a url is never empty and never blank. When the chosen
  candidate is empty or blank the summary is the placeholder of line 283; in particular
  when there is no usable title, no usable description and no markdown. And a result with
  a url that is not empty is not dropped: unless the \<open>trimPrompt\<close> of its markdown never
  returns, which a splitter whose first chunk is never longer than its input excludes, it
  yields a source with that url and a summary that is neither empty nor blank.
\<close>

theorem summary_never_empty:
  "(\<forall>v s'. newUrl env item s = (Returns (Some v), s') \<longrightarrow>
      summary v \<noteq> [] \<and> js_trim (summary v) \<noteq> [] \<and>
      (\<exists>u. doc_url item = Some u \<and> u \<noteq> [] \<and> url v = u) \<and>
      (\<forall>c s1. selectSummary env item s = (Returns c, s1) \<and> (c = [] \<or> js_trim c = []) \<longrightarrow>
         summary v = noSummary) \<and>
      (usable (Option.bind (doc_metadata item) title) = None \<and>
       usable (Option.bind (doc_metadata item) description) = None \<and>
       (doc_markdown item = None \<or> doc_markdown item = Some []) \<longrightarrow> summary v = noSummary)) \<and>
   (\<forall>u. doc_url item = Some u \<and> u \<noteq> [] \<longrightarrow>
      (fst (newUrl env item s) = Hangs \<or>
       (\<exists>v s'. newUrl env item s = (Returns (Some v), s') \<and> url v = u \<and>
          summary v \<noteq> [] \<and> js_trim (summary v) \<noteq> [])) \<and>
      (splitter_nonexpanding (splitter env) \<longrightarrow>
         (\<exists>v s'. newUrl env item s = (Returns (Some v), s') \<and> url v = u \<and>
            summary v \<noteq> [] \<and> js_trim (summary v) \<noteq> [])))"
proof (intro conjI allI impI)
  fix v s'
  assume ret: "newUrl env item s = (Returns (Some v), s')"
  then obtain u c s1 where u: "doc_url item = Some u" "u \<noteq> []"
    and sel: "selectSummary env item s = (Returns c, s1)"
    and v: "v = \<lparr>ref = nextRef s1, url = u, summary = ensureSummary c\<rparr>"
    by (auto simp: newUrl_def split: option.splits if_splits prod.splits outcome.splits)
  from v ensureSummary_not_blank[of c] show "summary v \<noteq> []" and "js_trim (summary v) \<noteq> []"
    by simp_all
  from u v show "\<exists>u. doc_url item = Some u \<and> u \<noteq> [] \<and> url v = u" by simp
  have blank: "c = [] \<or> js_trim c = [] \<Longrightarrow> summary v = noSummary"
    using v by (auto simp: ensureSummary_def)
  {
    fix c' s1'
    assume "selectSummary env item s = (Returns c', s1') \<and> (c' = [] \<or> js_trim c' = [])"
    with sel blank show "summary v = noSummary" by auto
  }
  {
    assume "usable (Option.bind (doc_metadata item) title) = None \<and>
       usable (Option.bind (doc_metadata item) description) = None \<and>
       (doc_markdown item = None \<or> doc_markdown item = Some [])"
    with sel have "c = []" by (auto simp: selectSummary_def)
    with blank show "summary v = noSummary" by simp
  }
next
  fix u
  assume u: "doc_url item = Some u \<and> u \<noteq> []"
  from selectSummary_outcome[of env item s]
  show "fst (newUrl env item s) = Hangs \<or>
       (\<exists>v s'. newUrl env item s = (Returns (Some v), s') \<and> url v = u \<and>
          summary v \<noteq> [] \<and> js_trim (summary v) \<noteq> [])"
  proof (elim disjE exE)
    fix s1 assume "selectSummary env item s = (Hangs, s1)"
    with u show ?thesis by (simp add: newUrl_def)
  next
    fix c s1 assume "selectSummary env item s = (Returns c, s1)"
    with u ensureSummary_not_blank[of c] show ?thesis by (simp add: newUrl_def)
  qed
next
  fix u
  assume u: "doc_url item = Some u \<and> u \<noteq> []" and ne: "splitter_nonexpanding (splitter env)"
  from selectSummary_returns[OF ne, of item s] obtain c s1 where
    "selectSummary env item s = (Returns c, s1)" by blast
  with u ensureSummary_not_blank[of c]
  show "\<exists>v s'. newUrl env item s = (Returns (Some v), s') \<and> url v = u \<and>
            summary v \<noteq> [] \<and> js_trim (summary v) \<noteq> []"
    by (simp add: newUrl_def)
qed

theorem summary_never_empty_witness:
  "doc_url bareItem = Some (ascii ''u'') \<and> ascii ''u'' \<noteq> [] \<and>
   splitter_nonexpanding (splitter demoEnv) \<and>
   newUrl demoEnv bareItem start =
     (Returns (Some \<lparr>ref = 0, url = ascii ''u'', summary = noSummary\<rparr>), \<lparr>world = 0, nextRef = 1, notified = []\<rparr>) \<and>
   noSummary \<noteq> [] \<and> js_trim noSummary \<noteq> [] \<and>
   selectSummary demoEnv bareItem start = (Returns [], start) \<and>
   newUrl mutedEnv plainItem start =
     (Returns (Some \<lparr>ref = 0, url = ascii ''u'', summary = ascii ''m''\<rparr>), \<lparr>world = 0, nextRef = 1, notified = []\<rparr>) \<and>
   newUrl strictEnv specialItem start =
     (Returns (Some \<lparr>ref = 0, url = ascii ''u'', summary = ascii ''<|endoftext|>''\<rparr>),
      \<lparr>world = 0, nextRef = 1, notified = []\<rparr>)"
proof -
  have u: "doc_url bareItem = Some (ascii ''u'') \<and> ascii ''u'' \<noteq> []"
    by (simp add: bareItem_def ascii_def)
  have ne: "splitter_nonexpanding (splitter demoEnv)"
    by (simp add: demoEnv_def wholeSplitter_nonexpanding)
  have n: "newUrl demoEnv bareItem start =
     (Returns (Some \<lparr>ref = 0, url = ascii ''u'', summary = noSummary\<rparr>), \<lparr>world = 0, nextRef = 1, notified = []\<rparr>)"
    by (simp add: model_defs demo_defs bareItem_def)
  have s: "selectSummary demoEnv bareItem start = (Returns [], start)"
    by (simp add: model_defs demo_defs bareItem_def)
  have m: "newUrl mutedEnv plainItem start =
     (Returns (Some \<lparr>ref = 0, url = ascii ''u'', summary = ascii ''m''\<rparr>), \<lparr>world = 0, nextRef = 1, notified = []\<rparr>)"
    by (simp add: model_defs demo_defs mutedEnv_def plainItem_def)
  have t: "newUrl strictEnv specialItem start =
     (Returns (Some \<lparr>ref = 0, url = ascii ''u'', summary = ascii ''<|endoftext|>''\<rparr>),
      \<lparr>world = 0, nextRef = 1, notified = []\<rparr>)"
    by (simp add: model_defs demo_defs strictEnv_def specialItem_def strictTokens_def)
  from summary_never_empty[of demoEnv bareItem start] u ne n s m t show ?thesis
    by (simp add: noSummary_not_blank)
qed


section \<open>Failures inside a branch\<close>

lemma tryBlock_search_fails:
  "search env (query serpQuery) (world s) = (Inl e, w) \<Longrightarrow>
   tryBlock env onProgress breadth depth learnings0 visitedUrls0 progress serpQuery s =
     (Throws e, progress, s\<lparr>world := w\<rparr>)"
  by (simp add: tryBlock_def)

lemma tryBlock_learnings_fail:
  "search env (query serpQuery) (world s) = (Inr items, w) \<Longrightarrow>
   newUrls env items (s\<lparr>world := w\<rparr>) = (Returns found, sa) \<Longrightarrow>
   processSerpResult env (query serpQuery) items 3 (ceilHalf breadth) sa = (Throws e, sb) \<Longrightarrow>
   tryBlock env onProgress breadth depth learnings0 visitedUrls0 progress serpQuery s = (Throws e, progress, sb)"
  by (simp add: tryBlock_def Let_def)

lemma selectSummary_fallback:
  assumes "usable (Option.bind (doc_metadata item) title) = None"
    and "usable (Option.bind (doc_metadata item) description) = None"
    and "doc_markdown item = Some m" and "m \<noteq> []"
    and "trimPrompt (tokenCount env) (splitter env) m (defaultContextSize env) = Some (Inr content)"
    and "llmSummary env content (world s) = (Inl e, w)"
  shows "selectSummary env item s = (Returns (markdownFallback m), s\<lparr>world := w\<rparr>)"
  using assms by (simp add: selectSummary_def)

lemma selectSummary_tokenizer_fallback:
  assumes "usable (Option.bind (doc_metadata item) title) = None"
    and "usable (Option.bind (doc_metadata item) description) = None"
    and "doc_markdown item = Some m" and "m \<noteq> []"
    and "trimPrompt (tokenCount env) (splitter env) m (defaultContextSize env) = Some (Inl e)"
  shows "selectSummary env item s = (Returns (markdownFallback m), s)"
  using assms by (simp add: selectSummary_def)

text \<open>
  C3, as the code has it. Take an invocation whose queries are \<open>before @ failing # after\<close>,
  whose first report returns, and whose other branches return (\<open>rs1\<close> and \<open>rs2\<close>). When
  the search of the branch \<open>failing\<close> throws, or its search and its summaries succeed and
  the learning extraction (\<open>processSerpResult\<close>) throws, a timeout or not, that branch
  contributes the empty result, the invocation returns, and its aggregate is the
  aggregate of the results of the other branches, which holds every learning and every
  source object of each of them. The learning extraction throws what its model throws and
  what the tokenizer throws on the markdown of a result. A failure of the call that
  generates the summary of a result is another matter: the summary is then the cut
  markdown, and the branch goes on; likewise when the tokenizer throws on the markdown
  there, and then the summary model is not called.
\<close>

theorem failed_branch_isolated:
  assumes queries: "generateSerpQueries env topic breadth learnings0 s = (Returns (before @ failing # after), s1)"
    and report: "reportProgress onProgress (updateQueries (before @ failing # after))
                   (initialProgress depth breadth) s1 = (Returns (), p0, s2)"
    and siblings_before:
      "runBranches (researchBranch (deepResearch n env onProgress) env onProgress breadth depth learnings0 visitedUrls0)
         before p0 s2 = (Returns rs1, p1, s3)"
    and failure:
      "(\<exists>w. search env (query failing) (world s3) = (Inl e, w) \<and> s4 = s3\<lparr>world := w\<rparr>) \<or>
       (\<exists>items w found sa. search env (query failing) (world s3) = (Inr items, w) \<and>
          newUrls env items (s3\<lparr>world := w\<rparr>) = (Returns found, sa) \<and>
          processSerpResult env (query failing) items 3 (ceilHalf breadth) sa = (Throws e, s4))"
    and siblings_after:
      "runBranches (researchBranch (deepResearch n env onProgress) env onProgress breadth depth learnings0 visitedUrls0)
         after p1 s4 = (Returns rs2, p2, s5)"
  shows "researchBranch (deepResearch n env onProgress) env onProgress breadth depth learnings0 visitedUrls0
           p1 failing s3 = (Returns emptyResult, p1, s4) \<and>
         deepResearch (Suc n) env onProgress topic breadth depth learnings0 visitedUrls0 s =
           (Returns (aggregate (rs1 @ rs2)), s5) \<and>
         (\<forall>r \<in> set (rs1 @ rs2).
            set (learnings r) \<subseteq> set (learnings (aggregate (rs1 @ rs2))) \<and>
            ref ` set (visitedUrls r) \<subseteq> ref ` set (visitedUrls (aggregate (rs1 @ rs2)))) \<and>
         (\<forall>item m content e' w' s0.
            usable (Option.bind (doc_metadata item) title) = None \<and>
            usable (Option.bind (doc_metadata item) description) = None \<and>
            doc_markdown item = Some m \<and> m \<noteq> [] \<and>
            trimPrompt (tokenCount env) (splitter env) m (defaultContextSize env) = Some (Inr content) \<and>
            llmSummary env content (world s0) = (Inl e', w') \<longrightarrow>
            selectSummary env item s0 = (Returns (markdownFallback m), s0\<lparr>world := w'\<rparr>)) \<and>
         (\<forall>item m e' s0.
            usable (Option.bind (doc_metadata item) title) = None \<and>
            usable (Option.bind (doc_metadata item) description) = None \<and>
            doc_markdown item = Some m \<and> m \<noteq> [] \<and>
            trimPrompt (tokenCount env) (splitter env) m (defaultContextSize env) = Some (Inl e') \<longrightarrow>
            selectSummary env item s0 = (Returns (markdownFallback m), s0))"
proof -
  let ?B = "researchBranch (deepResearch n env onProgress) env onProgress breadth depth learnings0 visitedUrls0"
  from failure have "tryBlock env onProgress breadth depth learnings0 visitedUrls0 p1 failing s3 = (Throws e, p1, s4)"
    by (auto simp: tryBlock_search_fails tryBlock_learnings_fail)
  then have branch: "?B p1 failing s3 = (Returns emptyResult, p1, s4)"
    by (simp add: researchBranch_def)
  with siblings_after have "runBranches ?B (failing # after) p1 s3 = (Returns (emptyResult # rs2), p2, s5)"
    by simp
  with siblings_before have "runBranches ?B (before @ failing # after) p0 s2 = (Returns (rs1 @ emptyResult # rs2), p2, s5)"
    by (simp add: runBranches_append)
  with queries report have
    "deepResearch (Suc n) env onProgress topic breadth depth learnings0 visitedUrls0 s =
       (Returns (aggregate (rs1 @ emptyResult # rs2)), s5)"
    by simp
  then have whole: "deepResearch (Suc n) env onProgress topic breadth depth learnings0 visitedUrls0 s =
       (Returns (aggregate (rs1 @ rs2)), s5)"
    by (simp add: aggregate_drop_empty)
  have "\<forall>r \<in> set (rs1 @ rs2).
            set (learnings r) \<subseteq> set (learnings (aggregate (rs1 @ rs2))) \<and>
            ref ` set (visitedUrls r) \<subseteq> ref ` set (visitedUrls (aggregate (rs1 @ rs2)))"
    unfolding aggregate_learnings_set aggregate_refs_set by blast
  moreover have "\<forall>item m content e' w' s0.
            usable (Option.bind (doc_metadata item) title) = None \<and>
            usable (Option.bind (doc_metadata item) description) = None \<and>
            doc_markdown item = Some m \<and> m \<noteq> [] \<and>
            trimPrompt (tokenCount env) (splitter env) m (defaultContextSize env) = Some (Inr content) \<and>
            llmSummary env content (world s0) = (Inl e', w') \<longrightarrow>
            selectSummary env item s0 = (Returns (markdownFallback m), s0\<lparr>world := w'\<rparr>)"
    by (intro allI impI, elim conjE, rule selectSummary_fallback)
  moreover have "\<forall>item m e' s0.
            usable (Option.bind (doc_metadata item) title) = None \<and>
            usable (Option.bind (doc_metadata item) description) = None \<and>
            doc_markdown item = Some m \<and> m \<noteq> [] \<and>
            trimPrompt (tokenCount env) (splitter env) m (defaultContextSize env) = Some (Inl e') \<longrightarrow>
            selectSummary env item s0 = (Returns (markdownFallback m), s0)"
    by (intro allI impI, elim conjE, rule selectSummary_tokenizer_fallback)
  ultimately show ?thesis using branch whole by (intro conjI)
qed

theorem failed_branch_isolated_witness:
  "search flakyEnv (query q1) (world start) = (Inl TimeoutError, 1) \<and>
   researchBranch (deepResearch 0 flakyEnv None) flakyEnv None 2 1 [] []
      (updateQueries [q1, q2] (initialProgress 1 2)) q1 start =
     (Returns emptyResult, updateQueries [q1, q2] (initialProgress 1 2), start\<lparr>world := 1\<rparr>) \<and>
   deepResearch 1 flakyEnv None (ascii ''t'') 2 1 [] [] start =
     (Returns \<lparr>learnings = [ascii ''q2''],
               visitedUrls = [\<lparr>ref = 0, url = ascii ''u'', summary = ascii ''Example''\<rparr>]\<rparr>,
      \<lparr>world = 2, nextRef = 1, notified = []\<rparr>) \<and>
   selectSummary mutedEnv plainItem start = (Returns (markdownFallback (ascii ''m'')), start) \<and>
   search strictEnv (query q1) (world start) = (Inr [specialItem], 1) \<and>
   selectSummary strictEnv specialItem (start\<lparr>world := 1\<rparr>) =
     (Returns (markdownFallback (ascii ''<|endoftext|>'')), start\<lparr>world := 1\<rparr>) \<and>
   processSerpResult strictEnv (query q1) [specialItem] 3 (ceilHalf 2) \<lparr>world = 1, nextRef = 1, notified = []\<rparr> =
     (Throws OtherError, \<lparr>world = 1, nextRef = 1, notified = []\<rparr>) \<and>
   researchBranch (deepResearch 0 strictEnv None) strictEnv None 2 1 [] []
      (updateQueries [q1, q2] (initialProgress 1 2)) q1 start =
     (Returns emptyResult, updateQueries [q1, q2] (initialProgress 1 2), \<lparr>world = 1, nextRef = 1, notified = []\<rparr>) \<and>
   deepResearch 1 strictEnv None (ascii ''t'') 2 1 [] [] start =
     (Returns emptyResult, \<lparr>world = 2, nextRef = 2, notified = []\<rparr>)"
proof -
  let ?p0 = "updateQueries ([] @ q1 # [q2]) (initialProgress 1 2)"
  let ?B = "researchBranch (deepResearch 0 flakyEnv None) flakyEnv None 2 1 [] []"
  let ?r2 = "\<lparr>learnings = [ascii ''q2''],
               visitedUrls = [\<lparr>ref = 0, url = ascii ''u'', summary = ascii ''Example''\<rparr>]\<rparr>"
  have h1: "generateSerpQueries flakyEnv (ascii ''t'') 2 [] start = (Returns ([] @ q1 # [q2]), start)"
    by (simp add: model_defs demo_defs flakyEnv_def)
  have h2: "reportProgress None (updateQueries ([] @ q1 # [q2])) (initialProgress 1 2) start =
              (Returns (), ?p0, start)"
    by (simp add: reportProgress_def)
  have h3: "runBranches ?B [] ?p0 start = (Returns [], ?p0, start)" by simp
  have f: "search flakyEnv (query q1) (world start) = (Inl TimeoutError, 1)"
    by (simp add: demo_defs flakyEnv_def)
  then have h4: "(\<exists>w. search flakyEnv (query q1) (world start) = (Inl TimeoutError, w) \<and>
                    start\<lparr>world := 1\<rparr> = start\<lparr>world := w\<rparr>) \<or>
       (\<exists>items w found sa. search flakyEnv (query q1) (world start) = (Inr items, w) \<and>
          newUrls flakyEnv items (start\<lparr>world := w\<rparr>) = (Returns found, sa) \<and>
          processSerpResult flakyEnv (query q1) items 3 (ceilHalf 2) sa = (Throws TimeoutError, start\<lparr>world := 1\<rparr>))"
    by simp
  have h5: "runBranches ?B [q2] ?p0 (start\<lparr>world := 1\<rparr>) =
      (Returns [?r2], updateDone q2 ?p0, \<lparr>world = 2, nextRef = 1, notified = []\<rparr>)"
    by (simp add: model_defs demo_defs flakyEnv_def)
  have agg: "aggregate ([] @ [?r2]) = ?r2"
    by (simp add: aggregate_def uniqueBy_def)
  have fb: "selectSummary mutedEnv plainItem start = (Returns (markdownFallback (ascii ''m'')), start)"
    by (simp add: model_defs demo_defs mutedEnv_def plainItem_def)
  let ?C = "researchBranch (deepResearch 0 strictEnv None) strictEnv None 2 1 [] []"
  let ?s1 = "\<lparr>world = 1, nextRef = 1, notified = []\<rparr> :: nat state"
  let ?s2 = "\<lparr>world = 2, nextRef = 2, notified = []\<rparr> :: nat state"
  have k1: "generateSerpQueries strictEnv (ascii ''t'') 2 [] start = (Returns ([] @ q1 # [q2]), start)"
    by (simp add: model_defs demo_defs strictEnv_def)
  have k3: "runBranches ?C [] ?p0 start = (Returns [], ?p0, start)" by simp
  have g: "search strictEnv (query q1) (world start) = (Inr [specialItem], 1)"
    by (simp add: demo_defs strictEnv_def)
  have sel: "selectSummary strictEnv specialItem (start\<lparr>world := 1\<rparr>) =
     (Returns (markdownFallback (ascii ''<|endoftext|>'')), start\<lparr>world := 1\<rparr>)"
    by (simp add: model_defs demo_defs strictEnv_def specialItem_def strictTokens_def)
  have nu: "newUrls strictEnv [specialItem] (start\<lparr>world := 1\<rparr>) =
     (Returns [Some \<lparr>ref = 0, url = ascii ''u'', summary = ascii ''<|endoftext|>''\<rparr>], ?s1)"
    by (simp add: model_defs demo_defs strictEnv_def specialItem_def strictTokens_def)
  have pr: "processSerpResult strictEnv (query q1) [specialItem] 3 (ceilHalf 2) ?s1 = (Throws OtherError, ?s1)"
    by (simp add: model_defs demo_defs strictEnv_def specialItem_def strictTokens_def)
  from g nu pr have k4: "(\<exists>w. search strictEnv (query q1) (world start) = (Inl OtherError, w) \<and>
                    ?s1 = start\<lparr>world := w\<rparr>) \<or>
       (\<exists>items w found sa. search strictEnv (query q1) (world start) = (Inr items, w) \<and>
          newUrls strictEnv items (start\<lparr>world := w\<rparr>) = (Returns found, sa) \<and>
          processSerpResult strictEnv (query q1) items 3 (ceilHalf 2) sa = (Throws OtherError, ?s1))"
    by blast
  have k5: "runBranches ?C [q2] ?p0 ?s1 = (Returns [emptyResult], ?p0, ?s2)"
    by (simp add: model_defs demo_defs strictEnv_def specialItem_def strictTokens_def)
  have agg': "aggregate ([] @ [emptyResult]) = emptyResult"
    by (simp add: aggregate_def uniqueBy_def emptyResult_def)
  have p0: "?p0 = updateQueries [q1, q2] (initialProgress 1 2)" by simp
  from failed_branch_isolated[OF k1 h2 k3 k4 k5] g sel pr agg'
  have strict: "search strictEnv (query q1) (world start) = (Inr [specialItem], 1) \<and>
      selectSummary strictEnv specialItem (start\<lparr>world := 1\<rparr>) =
        (Returns (markdownFallback (ascii ''<|endoftext|>'')), start\<lparr>world := 1\<rparr>) \<and>
      processSerpResult strictEnv (query q1) [specialItem] 3 (ceilHalf 2) ?s1 = (Throws OtherError, ?s1) \<and>
      ?C (updateQueries [q1, q2] (initialProgress 1 2)) q1 start =
        (Returns emptyResult, updateQueries [q1, q2] (initialProgress 1 2), ?s1) \<and>
      deepResearch 1 strictEnv None (ascii ''t'') 2 1 [] [] start = (Returns emptyResult, ?s2)"
    unfolding p0 by simp
  from failed_branch_isolated[OF h1 h2 h3 h4 h5] f agg fb strict show ?thesis by simp
qed

text \<open>
  C3 as the specification states it fails for the call that generates the summary of a
  result: that call times out here, the summary falls back to the cut markdown (lines 273
  to 278), and the branch contributes its learning and its source, not the empty result.
\<close>

theorem failed_summary_keeps_branch_counterexample:
  "llmSummary mutedEnv (ascii ''m'') 1 = (Inl TimeoutError, 1) \<and>
   researchBranch (deepResearch 0 mutedEnv None) mutedEnv None 1 1 [] [] (initialProgress 1 1) q1 start =
     (Returns \<lparr>learnings = [ascii ''q1''],
               visitedUrls = [\<lparr>ref = 0, url = ascii ''u'', summary = ascii ''m''\<rparr>]\<rparr>,
      updateDone q1 (initialProgress 1 1), \<lparr>world = 1, nextRef = 1, notified = []\<rparr>) \<and>
   deepResearch 1 mutedEnv None (ascii ''t'') 1 1 [] [] start =
     (Returns \<lparr>learnings = [ascii ''q1''],
               visitedUrls = [\<lparr>ref = 0, url = ascii ''u'', summary = ascii ''m''\<rparr>]\<rparr>,
      \<lparr>world = 1, nextRef = 1, notified = []\<rparr>)"
  by (simp add: model_defs demo_defs mutedEnv_def plainItem_def)

text \<open>
  The handler of a branch does not cover the nested invocation: line 323 returns its
  promise from inside the \<open>try\<close> block without awaiting it, so what the nested invocation
  throws (its query generation, or its observer at the first report) is thrown by the task
  of the branch.
\<close>

lemma nested_failure_leaves_branch:
  assumes "tryBlock env onProgress breadth depth ls us progress q s = (Returns (Nested topic b d ls' us'), p', s')"
    and "recurse topic b d ls' us' s' = (Throws e, s'')"
  shows "researchBranch recurse env onProgress breadth depth ls us progress q s = (Throws e, p', s'')"
  using assms by (simp add: researchBranch_def)

text \<open>
  C10. In a branch of an invocation of depth at least 2 whose search, summaries and
  learning extraction succeed and whose report returns, the result of the nested
  invocation is the contribution of the branch: the learnings and sources of the branch and
  of the caller are inputs of the nested invocation and come back only through its result.
  When the nested invocation returns the empty aggregate, the branch contributes nothing.
\<close>

theorem nested_result_replaces_branch:
  assumes "search env (query serpQuery) (world s) = (Inr items, w)"
    and "newUrls env items (s\<lparr>world := w\<rparr>) = (Returns found, s1)"
    and "processSerpResult env (query serpQuery) items 3 (ceilHalf breadth) s1 = (Returns newLearnings, s2)"
    and "2 \<le> depth"
    and "reportProgress onProgress (updateDeeper (depth - 1) (ceilHalf breadth) serpQuery) progress s2 =
           (Returns (), progress', s3)"
    and "deepResearch n env onProgress (nextQuery serpQuery (followUpQuestions newLearnings))
           (ceilHalf breadth) (depth - 1) (learnings0 @ new_learnings newLearnings)
           (visitedUrls0 @ compactObjects found) s3 = (Returns sub, s4)"
  shows "researchBranch (deepResearch n env onProgress) env onProgress breadth depth learnings0 visitedUrls0
           progress serpQuery s = (Returns sub, progress', s4) \<and>
         (sub = emptyResult \<longrightarrow>
            fst (researchBranch (deepResearch n env onProgress) env onProgress breadth depth learnings0
                   visitedUrls0 progress serpQuery s) = Returns \<lparr>learnings = [], visitedUrls = []\<rparr>)"
proof -
  from assms(1-5) have
    "tryBlock env onProgress breadth depth learnings0 visitedUrls0 progress serpQuery s =
       (Returns (Nested (nextQuery serpQuery (followUpQuestions newLearnings)) (ceilHalf breadth) (depth - 1)
          (learnings0 @ new_learnings newLearnings) (visitedUrls0 @ compactObjects found)), progress', s3)"
    by (simp add: tryBlock_def Let_def)
  with assms(6) have
    "researchBranch (deepResearch n env onProgress) env onProgress breadth depth learnings0 visitedUrls0
           progress serpQuery s = (Returns sub, progress', s4)"
    by (simp add: researchBranch_def)
  then show ?thesis by (auto simp: emptyResult_def)
qed

theorem nested_result_replaces_branch_witness:
  "processSerpResult fadingEnv (query q1) [demoItem] 3 (ceilHalf 1) \<lparr>world = 1, nextRef = 1, notified = []\<rparr> =
     (Returns \<lparr>new_learnings = [ascii ''q1''], followUpQuestions = []\<rparr>, \<lparr>world = 1, nextRef = 1, notified = []\<rparr>) \<and>
   deepResearch 1 fadingEnv None (nextQuery q1 []) (ceilHalf 1) (2 - 1) ([ascii ''L0''] @ [ascii ''q1''])
     ([] @ compactObjects [Some \<lparr>ref = 0, url = ascii ''u'', summary = ascii ''Example''\<rparr>])
     \<lparr>world = 1, nextRef = 1, notified = []\<rparr> = (Returns emptyResult, \<lparr>world = 2, nextRef = 1, notified = []\<rparr>) \<and>
   researchBranch (deepResearch 1 fadingEnv None) fadingEnv None 1 2 [ascii ''L0''] [] (initialProgress 2 1) q1 start =
     (Returns emptyResult, updateDeeper 1 1 q1 (initialProgress 2 1), \<lparr>world = 2, nextRef = 1, notified = []\<rparr>) \<and>
   deepResearch 2 fadingEnv None (ascii ''t'') 1 2 [ascii ''L0''] [] start =
     (Returns emptyResult, \<lparr>world = 2, nextRef = 1, notified = []\<rparr>)"
proof -
  let ?s1 = "\<lparr>world = 1, nextRef = 1, notified = []\<rparr> :: nat state"
  let ?s4 = "\<lparr>world = 2, nextRef = 1, notified = []\<rparr> :: nat state"
  let ?found = "[Some \<lparr>ref = 0, url = ascii ''u'', summary = ascii ''Example''\<rparr>]"
  let ?nl = "\<lparr>new_learnings = [ascii ''q1''], followUpQuestions = []\<rparr>"
  have h1: "search fadingEnv (query q1) (world start) = (Inr [demoItem], 1)"
    by (simp add: demo_defs fadingEnv_def)
  have h2: "newUrls fadingEnv [demoItem] (start\<lparr>world := 1\<rparr>) = (Returns ?found, ?s1)"
    by (simp add: model_defs demo_defs fadingEnv_def)
  have h3: "processSerpResult fadingEnv (query q1) [demoItem] 3 (ceilHalf 1) ?s1 = (Returns ?nl, ?s1)"
    by (simp add: model_defs demo_defs fadingEnv_def)
  have h4: "(2::int) \<le> 2" by simp
  have h5: "reportProgress None (updateDeeper (2 - 1) (ceilHalf 1) q1) (initialProgress 2 1) ?s1 =
      (Returns (), updateDeeper 1 1 q1 (initialProgress 2 1), ?s1)"
    by (simp add: reportProgress_def ceilHalf_def)
  have h6: "deepResearch 1 fadingEnv None (nextQuery q1 (followUpQuestions ?nl)) (ceilHalf 1) (2 - 1)
      ([ascii ''L0''] @ new_learnings ?nl) ([] @ compactObjects ?found) ?s1 = (Returns emptyResult, ?s4)"
    by (simp add: model_defs demo_defs fadingEnv_def)
  have top: "deepResearch 2 fadingEnv None (ascii ''t'') 1 2 [ascii ''L0''] [] start = (Returns emptyResult, ?s4)"
    by (simp add: model_defs demo_defs fadingEnv_def deepResearch_numeral)
  from nested_result_replaces_branch[OF h1 h2 h3 h4 h5 h6] h3 h6 top
  show ?thesis by simp
qed

section \<open>The progress observer\<close>

lemma generateSerpQueries_same:
  "sameButLog s t \<Longrightarrow> sameRun (generateSerpQueries env topic k ls s) (generateSerpQueries env topic k ls t)"
  by (auto simp: sameRun_def sameButLog_def generateSerpQueries_def split: prod.splits sum.splits)

lemma selectSummary_same:
  "sameButLog s t \<Longrightarrow> sameRun (selectSummary env item s) (selectSummary env item t)"
  by (auto simp: sameRun_def sameButLog_def selectSummary_def split: prod.splits sum.splits option.splits)

lemma newUrl_same:
  assumes "sameButLog s t"
  shows "sameRun (newUrl env item s) (newUrl env item t)"
proof -
  obtain o1 s1 where a: "selectSummary env item s = (o1, s1)" by (cases "selectSummary env item s")
  obtain o2 t1 where b: "selectSummary env item t = (o2, t1)" by (cases "selectSummary env item t")
  from selectSummary_same[OF assms, of env item] a b have "o1 = o2" "sameButLog s1 t1"
    by (auto simp: sameRun_def)
  with a b assms show ?thesis
    by (auto simp: newUrl_def sameRun_def sameButLog_def split: option.splits outcome.splits)
qed

lemma newUrls_same:
  "sameButLog s t \<Longrightarrow> sameRun (newUrls env items s) (newUrls env items t)"
proof (induction items arbitrary: s t)
  case Nil
  then show ?case by (simp add: sameRun_def)
next
  case (Cons item items)
  obtain o1 s1 where a: "newUrl env item s = (o1, s1)" by (cases "newUrl env item s")
  obtain o2 t1 where b: "newUrl env item t = (o2, t1)" by (cases "newUrl env item t")
  from newUrl_same[OF Cons.prems, of env item] a b have o: "o1 = o2" and st: "sameButLog s1 t1"
    by (auto simp: sameRun_def)
  obtain o3 s2 where c: "newUrls env items s1 = (o3, s2)" by (cases "newUrls env items s1")
  obtain o4 t2 where d: "newUrls env items t1 = (o4, t2)" by (cases "newUrls env items t1")
  from Cons.IH[OF st] c d have "o3 = o4" "sameButLog s2 t2" by (auto simp: sameRun_def)
  with a b c d o st show ?case
    by (auto simp: sameRun_def split: outcome.splits)
qed

lemma processSerpResult_same:
  "sameButLog s t \<Longrightarrow>
   sameRun (processSerpResult env q items k1 k2 s) (processSerpResult env q items k1 k2 t)"
  by (auto simp: sameRun_def sameButLog_def processSerpResult_def split: prod.splits sum.splits option.splits)

lemma reportProgress_quiet:
  "quiet observer \<Longrightarrow>
   reportProgress (Some observer) update progress s =
     (Returns (), update progress, s\<lparr>notified := notified s @ [update progress]\<rparr>)"
  by (simp add: reportProgress_def quiet_def Let_def)

lemma reportProgress_None:
  "reportProgress None update progress s = (Returns (), update progress, s)"
  by (simp add: reportProgress_def Let_def)

lemma tryBlock_same:
  assumes "sameButLog s t" and "quiet observer"
  shows "sameStep (tryBlock env (Some observer) breadth depth ls us progress q s)
                  (tryBlock env None breadth depth ls us progress q t)"
proof (cases "search env (query q) (world s)")
  case (Pair res w)
  from assms(1) have wt: "world t = world s" by (simp add: sameButLog_def)
  show ?thesis
  proof (cases res)
    case (Inl e)
    with Pair wt assms(1) show ?thesis
      by (simp add: tryBlock_def sameStep_def sameButLog_def)
  next
    case (Inr items)
    from assms(1) have st0: "sameButLog (s\<lparr>world := w\<rparr>) (t\<lparr>world := w\<rparr>)" by (simp add: sameButLog_def)
    obtain o1 s1 where a: "newUrls env items (s\<lparr>world := w\<rparr>) = (o1, s1)" by (cases "newUrls env items (s\<lparr>world := w\<rparr>)")
    obtain o2 t1 where b: "newUrls env items (t\<lparr>world := w\<rparr>) = (o2, t1)" by (cases "newUrls env items (t\<lparr>world := w\<rparr>)")
    from newUrls_same[OF st0, of env items] a b have o: "o2 = o1" and st1: "sameButLog s1 t1"
      by (auto simp: sameRun_def)
    obtain o3 s2 where c: "processSerpResult env (query q) items 3 (ceilHalf breadth) s1 = (o3, s2)"
      by (cases "processSerpResult env (query q) items 3 (ceilHalf breadth) s1")
    obtain o4 t2 where d: "processSerpResult env (query q) items 3 (ceilHalf breadth) t1 = (o4, t2)"
      by (cases "processSerpResult env (query q) items 3 (ceilHalf breadth) t1")
    from processSerpResult_same[OF st1, of env "query q" items 3 "ceilHalf breadth"] c d
    have o': "o4 = o3" and st2: "sameButLog s2 t2" by (auto simp: sameRun_def)
    from Pair Inr wt a b c d o o' st1 st2 show ?thesis
      by (cases o1; cases o3)
         (simp_all add: tryBlock_def Let_def sameStep_def reportProgress_quiet[OF assms(2)]
            reportProgress_None sameButLog_def)
  qed
qed


lemma researchBranch_same:
  assumes st: "sameButLog s t" and q: "quiet observer"
    and rec: "\<And>topic b d ls' us' s' t'. sameButLog s' t' \<Longrightarrow>
                sameRun (rec1 topic b d ls' us' s') (rec2 topic b d ls' us' t')"
  shows "sameStep (researchBranch rec1 env (Some observer) breadth depth ls us progress q' s)
                  (researchBranch rec2 env None breadth depth ls us progress q' t)"
proof -
  obtain o1 p1 s1 where a: "tryBlock env (Some observer) breadth depth ls us progress q' s = (o1, p1, s1)"
    by (cases "tryBlock env (Some observer) breadth depth ls us progress q' s") auto
  obtain o2 p2 t1 where b: "tryBlock env None breadth depth ls us progress q' t = (o2, p2, t1)"
    by (cases "tryBlock env None breadth depth ls us progress q' t") auto
  from tryBlock_same[OF st q, of env breadth depth ls us progress q'] a b
  have eq: "o2 = o1" "p2 = p1" and st1: "sameButLog s1 t1" by (auto simp: sameStep_def)
  show ?thesis
  proof (cases o1)
    case (Returns v)
    show ?thesis
    proof (cases v)
      case (Value r)
      with Returns a b eq st1 show ?thesis by (simp add: researchBranch_def sameStep_def)
    next
      case (Nested topic b' d' ls' us')
      obtain o3 s2 where c: "rec1 topic b' d' ls' us' s1 = (o3, s2)" by (cases "rec1 topic b' d' ls' us' s1")
      obtain o4 t2 where d: "rec2 topic b' d' ls' us' t1 = (o4, t2)" by (cases "rec2 topic b' d' ls' us' t1")
      from rec[OF st1, of topic b' d' ls' us'] c d have "o4 = o3" "sameButLog s2 t2"
        by (auto simp: sameRun_def)
      with Returns Nested a b c d eq show ?thesis by (simp add: researchBranch_def sameStep_def)
    qed
  qed (use a b eq st1 in \<open>simp_all add: researchBranch_def sameStep_def\<close>)
qed

lemma runBranches_same:
  assumes br: "\<And>p q s t. sameButLog s t \<Longrightarrow> sameStep (branch1 p q s) (branch2 p q t)"
  shows "sameButLog s t \<Longrightarrow> sameStep (runBranches branch1 qs p s) (runBranches branch2 qs p t)"
proof (induction qs arbitrary: p s t)
  case Nil
  then show ?case by (simp add: sameStep_def)
next
  case (Cons q qs)
  obtain o1 p1 s1 where a: "branch1 p q s = (o1, p1, s1)" by (cases "branch1 p q s") auto
  obtain o2 p2 t1 where b: "branch2 p q t = (o2, p2, t1)" by (cases "branch2 p q t") auto
  from br[OF Cons.prems, of p q] a b have eq: "o2 = o1" "p2 = p1" and st1: "sameButLog s1 t1"
    by (auto simp: sameStep_def)
  obtain o3 p3 s2 where c: "runBranches branch1 qs p1 s1 = (o3, p3, s2)"
    by (cases "runBranches branch1 qs p1 s1") auto
  obtain o4 p4 t2 where d: "runBranches branch2 qs p1 t1 = (o4, p4, t2)"
    by (cases "runBranches branch2 qs p1 t1") auto
  from Cons.IH[OF st1, of p1] c d have "o4 = o3" "p4 = p3" "sameButLog s2 t2"
    by (auto simp: sameStep_def)
  with a b c d eq st1 show ?case
    by (cases o1; cases o3) (simp_all add: sameStep_def)
qed

lemma deepResearch_same:
  assumes q: "quiet observer"
  shows "sameButLog s t \<Longrightarrow>
    sameRun (deepResearch n env (Some observer) topic breadth depth ls us s)
            (deepResearch n env None topic breadth depth ls us t)"
proof (induction n arbitrary: topic breadth depth ls us s t)
  case 0
  then show ?case by (simp add: sameRun_def)
next
  case (Suc n)
  obtain o1 s1 where a: "generateSerpQueries env topic breadth ls s = (o1, s1)"
    by (cases "generateSerpQueries env topic breadth ls s")
  obtain o2 t1 where b: "generateSerpQueries env topic breadth ls t = (o2, t1)"
    by (cases "generateSerpQueries env topic breadth ls t")
  from generateSerpQueries_same[OF Suc.prems, of env topic breadth ls] a b
  have eq: "o2 = o1" and st1: "sameButLog s1 t1" by (auto simp: sameRun_def)
  show ?case
  proof (cases o1)
    case (Returns qs)
    let ?p = "updateQueries qs (initialProgress depth breadth)"
    let ?s2 = "s1\<lparr>notified := notified s1 @ [?p]\<rparr>"
    have st2: "sameButLog ?s2 t1" using st1 by (simp add: sameButLog_def)
    let ?B1 = "researchBranch (deepResearch n env (Some observer)) env (Some observer) breadth depth ls us"
    let ?B2 = "researchBranch (deepResearch n env None) env None breadth depth ls us"
    have br: "\<And>p q' s' t'. sameButLog s' t' \<Longrightarrow> sameStep (?B1 p q' s') (?B2 p q' t')"
      by (rule researchBranch_same[OF _ q]) (auto intro: Suc.IH)
    obtain o3 p3 s3 where c: "runBranches ?B1 qs ?p ?s2 = (o3, p3, s3)"
      by (cases "runBranches ?B1 qs ?p ?s2") auto
    obtain o4 p4 t3 where d: "runBranches ?B2 qs ?p t1 = (o4, p4, t3)"
      by (cases "runBranches ?B2 qs ?p t1") auto
    from runBranches_same[of ?B1 ?B2, OF br st2, of qs ?p] c d
    have "o4 = o3" "sameButLog s3 t3" by (auto simp: sameStep_def)
    with Returns a b c d eq show ?thesis
      by (cases o3) (simp_all add: sameRun_def reportProgress_quiet[OF q] reportProgress_None)
  qed (use a b eq st1 in \<open>simp_all add: sameRun_def\<close>)
qed

text \<open>
  C4, as the code has it. The calls of the observer are not guarded. An observer that
  always returns and leaves the world alone does not change what \<open>deepResearch\<close> returns
  or does to the world. An exception of the observer at the first report of an invocation
  (line 218) is thrown by the invocation. An exception of the observer at the report of a
  branch (lines 311 and 332), after the search and the learning extraction of the branch
  have succeeded, is caught by the handler of the branch, which then contributes the empty
  result.
\<close>

theorem observer_not_isolated:
  "(quiet observer \<longrightarrow>
      fst (deepResearch n env (Some observer) topic breadth depth ls us s) =
        fst (deepResearch n env None topic breadth depth ls us s) \<and>
      world (snd (deepResearch n env (Some observer) topic breadth depth ls us s)) =
        world (snd (deepResearch n env None topic breadth depth ls us s))) \<and>
   (\<forall>qs s1 e w.
      generateSerpQueries env topic breadth ls s = (Returns qs, s1) \<and>
      observer (updateQueries qs (initialProgress depth breadth)) (world s1) = (Some e, w) \<longrightarrow>
      fst (deepResearch (Suc n) env (Some observer) topic breadth depth ls us s) = Throws e) \<and>
   (\<forall>items w found s1 newLearnings s2 e w'.
      search env (query serpQuery) (world s) = (Inr items, w) \<and>
      newUrls env items (s\<lparr>world := w\<rparr>) = (Returns found, s1) \<and>
      processSerpResult env (query serpQuery) items 3 (ceilHalf breadth) s1 = (Returns newLearnings, s2) \<and>
      observer ((if depth - 1 > 0 then updateDeeper (depth - 1) (ceilHalf breadth) serpQuery
                 else updateDone serpQuery) progress) (world s2) = (Some e, w') \<longrightarrow>
      fst (researchBranch recurse env (Some observer) breadth depth ls us progress serpQuery s) =
        Returns emptyResult)"
proof (intro conjI impI allI)
  assume q: "quiet observer"
  have "sameButLog s s" by (simp add: sameButLog_def)
  from deepResearch_same[OF q this, of n env topic breadth depth ls us]
  show "fst (deepResearch n env (Some observer) topic breadth depth ls us s) =
        fst (deepResearch n env None topic breadth depth ls us s)"
    and "world (snd (deepResearch n env (Some observer) topic breadth depth ls us s)) =
        world (snd (deepResearch n env None topic breadth depth ls us s))"
    by (simp_all add: sameRun_def sameButLog_def)
next
  fix qs s1 e w
  assume "generateSerpQueries env topic breadth ls s = (Returns qs, s1) \<and>
      observer (updateQueries qs (initialProgress depth breadth)) (world s1) = (Some e, w)"
  then show "fst (deepResearch (Suc n) env (Some observer) topic breadth depth ls us s) = Throws e"
    by (simp add: reportProgress_def Let_def)
next
  fix items w found s1 newLearnings s2 e w'
  assume "search env (query serpQuery) (world s) = (Inr items, w) \<and>
      newUrls env items (s\<lparr>world := w\<rparr>) = (Returns found, s1) \<and>
      processSerpResult env (query serpQuery) items 3 (ceilHalf breadth) s1 = (Returns newLearnings, s2) \<and>
      observer ((if depth - 1 > 0 then updateDeeper (depth - 1) (ceilHalf breadth) serpQuery
                 else updateDone serpQuery) progress) (world s2) = (Some e, w')"
  then show "fst (researchBranch recurse env (Some observer) breadth depth ls us progress serpQuery s) =
        Returns emptyResult"
    by (simp add: researchBranch_def tryBlock_def reportProgress_def Let_def split: if_splits)
qed

theorem observer_not_isolated_witness:
  "quiet quietObserver \<and>
   fst (deepResearch 1 demoEnv (Some quietObserver) (ascii ''t'') 2 1 [] [] start) =
     fst (deepResearch 1 demoEnv None (ascii ''t'') 2 1 [] [] start) \<and>
   generateSerpQueries demoEnv (ascii ''t'') 2 [] start = (Returns [q1, q2], start) \<and>
   throwingObserver (updateQueries [q1, q2] (initialProgress 1 2)) (world start) = (Some OtherError, 0) \<and>
   fst (deepResearch 1 demoEnv (Some throwingObserver) (ascii ''t'') 2 1 [] [] start) = Throws OtherError \<and>
   processSerpResult demoEnv (query q1) [demoItem] 3 (ceilHalf 2) \<lparr>world = 1, nextRef = 1, notified = []\<rparr> =
     (Returns \<lparr>new_learnings = [ascii ''q1''], followUpQuestions = []\<rparr>, \<lparr>world = 1, nextRef = 1, notified = []\<rparr>) \<and>
   lateObserver (updateDone q1 (updateQueries [q1, q2] (initialProgress 1 2))) 1 = (Some OtherError, 1) \<and>
   fst (researchBranch (deepResearch 0 demoEnv (Some lateObserver)) demoEnv (Some lateObserver) 2 1 [] []
          (updateQueries [q1, q2] (initialProgress 1 2)) q1 start) = Returns emptyResult"
proof -
  let ?p0 = "updateQueries [q1, q2] (initialProgress 1 2)"
  let ?s1 = "\<lparr>world = 1, nextRef = 1, notified = []\<rparr> :: nat state"
  have a: "quiet quietObserver" by (simp add: quiet_def quietObserver_def)
  have t1: "fst (deepResearch 1 demoEnv (Some quietObserver) (ascii ''t'') 2 1 [] [] start) =
     fst (deepResearch 1 demoEnv None (ascii ''t'') 2 1 [] [] start)"
    using observer_not_isolated[where observer = quietObserver and n = 1 and env = demoEnv
        and topic = "ascii ''t''" and breadth = 2 and depth = 1 and ls = "[]" and us = "[]" and s = start] a
    by blast
  have g: "generateSerpQueries demoEnv (ascii ''t'') 2 [] start = (Returns [q1, q2], start)"
    by (simp add: model_defs demo_defs quietObserver_def throwingObserver_def lateObserver_def)
  have o: "throwingObserver ?p0 (world start) = (Some OtherError, 0)"
    by (simp add: throwingObserver_def start_def)
  have t2: "fst (deepResearch (Suc 0) demoEnv (Some throwingObserver) (ascii ''t'') 2 1 [] [] start) = Throws OtherError"
    using observer_not_isolated[where observer = throwingObserver and n = 0 and env = demoEnv
        and topic = "ascii ''t''" and breadth = 2 and depth = 1 and ls = "[]" and us = "[]" and s = start] g o
    by blast
  have b1: "search demoEnv (query q1) (world start) = (Inr [demoItem], 1)"
    by (simp add: demo_defs quietObserver_def throwingObserver_def lateObserver_def)
  have b2: "newUrls demoEnv [demoItem] (start\<lparr>world := 1\<rparr>) =
      (Returns [Some \<lparr>ref = 0, url = ascii ''u'', summary = ascii ''Example''\<rparr>], ?s1)"
    by (simp add: model_defs demo_defs quietObserver_def throwingObserver_def lateObserver_def)
  have b3: "processSerpResult demoEnv (query q1) [demoItem] 3 (ceilHalf 2) ?s1 =
      (Returns \<lparr>new_learnings = [ascii ''q1''], followUpQuestions = []\<rparr>, ?s1)"
    by (simp add: model_defs demo_defs quietObserver_def throwingObserver_def lateObserver_def)
  have b4': "lateObserver (updateDone q1 ?p0) 1 = (Some OtherError, 1)"
    by (simp add: lateObserver_def updateDone_def updateQueries_def initialProgress_def)
  then have b4: "lateObserver ((if (1::int) - 1 > 0 then updateDeeper (1 - 1) (ceilHalf 2) q1
                 else updateDone q1) ?p0) (world ?s1) = (Some OtherError, 1)"
    by simp
  have t3: "fst (researchBranch (deepResearch 0 demoEnv (Some lateObserver)) demoEnv (Some lateObserver) 2 1 [] []
          ?p0 q1 start) = Returns emptyResult"
    using observer_not_isolated[where observer = lateObserver and env = demoEnv
        and breadth = 2 and depth = 1 and ls = "[]" and us = "[]" and s = start and serpQuery = q1
        and progress = ?p0 and recurse = "deepResearch 0 demoEnv (Some lateObserver)"] b1 b2 b3 b4
    by blast
  from a t1 g o t2 b3 b4' t3 show ?thesis by simp
qed

text \<open>
  C4 as the specification states it fails: with an observer that returns, the run of C1
  returns two learnings and two sources; with an observer that always throws it throws;
  with an observer that throws once a query is completed it returns the empty aggregate.
\<close>

theorem observer_failure_changes_result_counterexample:
  "deepResearch 1 demoEnv (Some quietObserver) (ascii ''t'') 2 1 [] [] start =
     (Returns \<lparr>learnings = [ascii ''q1'', ascii ''q2''],
               visitedUrls = [\<lparr>ref = 0, url = ascii ''u'', summary = ascii ''Example''\<rparr>,
                              \<lparr>ref = 1, url = ascii ''u'', summary = ascii ''Example''\<rparr>]\<rparr>,
      \<lparr>world = 2, nextRef = 2,
       notified = [updateQueries [q1, q2] (initialProgress 1 2),
                   updateDone q1 (updateQueries [q1, q2] (initialProgress 1 2)),
                   updateDone q2 (updateDone q1 (updateQueries [q1, q2] (initialProgress 1 2)))]\<rparr>) \<and>
   fst (deepResearch 1 demoEnv (Some throwingObserver) (ascii ''t'') 2 1 [] [] start) = Throws OtherError \<and>
   fst (deepResearch 1 demoEnv (Some lateObserver) (ascii ''t'') 2 1 [] [] start) =
     Returns \<lparr>learnings = [], visitedUrls = []\<rparr>"
  by (simp add: model_defs demo_defs quietObserver_def throwingObserver_def lateObserver_def)

section \<open>Termination and the depth of the recursion\<close>

lemma selectSummary_not_TooDeep: "fst (selectSummary env item s) \<noteq> TooDeep"
  by (auto simp: selectSummary_def split: option.splits prod.splits sum.splits)

lemma selectSummary_not_Hangs:
  assumes "splitter_nonexpanding (splitter env)"
  shows "fst (selectSummary env item s) \<noteq> Hangs"
proof -
  have "\<And>m. trimPrompt (tokenCount env) (splitter env) m (defaultContextSize env) = None \<Longrightarrow> False"
    using trimPrompt_total[OF assms] by (metis option.distinct(1))
  then show ?thesis
    by (auto simp: selectSummary_def split: option.splits prod.splits sum.splits)
qed

lemma newUrl_not_TooDeep: "fst (newUrl env item s) \<noteq> TooDeep"
  using selectSummary_not_TooDeep[of env item s]
  by (auto simp: newUrl_def split: option.splits prod.splits outcome.splits)

lemma newUrl_not_Hangs:
  "splitter_nonexpanding (splitter env) \<Longrightarrow> fst (newUrl env item s) \<noteq> Hangs"
  using selectSummary_not_Hangs[of env item s]
  by (auto simp: newUrl_def split: option.splits prod.splits outcome.splits)

lemma newUrls_not_TooDeep: "fst (newUrls env items s) \<noteq> TooDeep"
proof (induction items arbitrary: s)
  case (Cons item items)
  show ?case using newUrl_not_TooDeep[of env item s] Cons.IH
    by (auto split: prod.splits outcome.splits) (metis fst_conv)+
qed simp

lemma newUrls_not_Hangs:
  assumes "splitter_nonexpanding (splitter env)"
  shows "fst (newUrls env items s) \<noteq> Hangs"
proof (induction items arbitrary: s)
  case (Cons item items)
  show ?case using newUrl_not_Hangs[OF assms, of item s] Cons.IH
    by (auto split: prod.splits outcome.splits) (metis fst_conv)+
qed simp

lemma trimContents_total:
  assumes "splitter_nonexpanding (splitter env)"
  shows "trimContents env contents = None \<Longrightarrow> False"
proof (induction contents)
  case Nil
  then show ?case by simp
next
  case (Cons content rest)
  from trimPrompt_total[OF assms, of "tokenCount env" content 25000] obtain out where
    "trimPrompt (tokenCount env) (splitter env) content 25000 = Some out" by blast
  with Cons show ?case by (auto split: sum.splits option.splits)
qed

lemma processSerpResult_not_TooDeep: "fst (processSerpResult env q items k1 k2 s) \<noteq> TooDeep"
  by (auto simp: processSerpResult_def split: option.splits prod.splits sum.splits)

lemma processSerpResult_not_Hangs:
  assumes "splitter_nonexpanding (splitter env)"
  shows "fst (processSerpResult env q items k1 k2 s) \<noteq> Hangs"
proof -
  have "\<And>xs. trimContents env xs = None \<Longrightarrow> False"
    by (rule trimContents_total[OF assms])
  then show ?thesis
    by (auto simp: processSerpResult_def split: option.splits prod.splits sum.splits)
qed

lemma reportProgress_outcome:
  "fst (reportProgress onProgress update progress s) \<noteq> Hangs \<and>
   fst (reportProgress onProgress update progress s) \<noteq> TooDeep"
  by (auto simp: reportProgress_def Let_def split: option.splits prod.splits)

lemma tryBlock_not_TooDeep:
  "fst (tryBlock env onProgress breadth depth ls us progress q s) \<noteq> TooDeep"
proof -
  have a: "\<And>items s'. fst (newUrls env items s') \<noteq> TooDeep" by (rule newUrls_not_TooDeep)
  have b: "\<And>items k s'. fst (processSerpResult env (query q) items 3 k s') \<noteq> TooDeep"
    by (rule processSerpResult_not_TooDeep)
  have c: "\<And>u p s'. fst (reportProgress onProgress u p s') \<noteq> TooDeep"
    using reportProgress_outcome by blast
  show ?thesis
    unfolding tryBlock_def Let_def
    by (auto split: prod.splits sum.splits outcome.splits if_splits)
       (metis a b c fst_conv)+
qed


lemma tryBlock_not_Hangs:
  assumes "splitter_nonexpanding (splitter env)"
  shows "fst (tryBlock env onProgress breadth depth ls us progress q s) \<noteq> Hangs"
proof -
  have a: "\<And>items s'. fst (newUrls env items s') \<noteq> Hangs" by (rule newUrls_not_Hangs[OF assms])
  have b: "\<And>items k s'. fst (processSerpResult env (query q) items 3 k s') \<noteq> Hangs"
    by (rule processSerpResult_not_Hangs[OF assms])
  have c: "\<And>u p s'. fst (reportProgress onProgress u p s') \<noteq> Hangs"
    using reportProgress_outcome by blast
  show ?thesis
    unfolding tryBlock_def Let_def
    by (auto split: prod.splits sum.splits outcome.splits if_splits)
       (metis a b c fst_conv)+
qed

lemma tryBlock_Nested:
  "tryBlock env onProgress breadth depth ls us progress q s = (Returns (Nested topic b d ls' us'), p', s') \<Longrightarrow>
   d = depth - 1 \<and> 0 < d \<and> b = ceilHalf breadth"
  unfolding tryBlock_def Let_def
  by (auto split: prod.splits sum.splits outcome.splits if_splits)

lemma tryBlock_Value:
  "tryBlock env onProgress breadth depth ls us progress q s = (Returns (Value r), p', s') \<Longrightarrow>
   depth - 1 \<le> 0"
  unfolding tryBlock_def Let_def
  by (auto split: prod.splits sum.splits outcome.splits if_splits)

lemma researchBranch_agree:
  assumes "\<And>topic b ls' us' s'. 0 < depth - 1 \<Longrightarrow>
             rec1 topic b (depth - 1) ls' us' s' = rec2 topic b (depth - 1) ls' us' s'"
  shows "researchBranch rec1 env onProgress breadth depth ls us progress q s =
         researchBranch rec2 env onProgress breadth depth ls us progress q s"
proof (cases "tryBlock env onProgress breadth depth ls us progress q s")
  case (fields out p' s')
  show ?thesis
  proof (cases out)
    case (Returns v)
    show ?thesis
    proof (cases v)
      case (Nested topic b d ls' us')
      from tryBlock_Nested[OF fields[unfolded Returns Nested]] assms
      have "rec1 topic b d ls' us' s' = rec2 topic b d ls' us' s'" by simp
      with fields Returns Nested show ?thesis by (simp add: researchBranch_def)
    qed (use fields Returns in \<open>simp add: researchBranch_def\<close>)
  qed (use fields in \<open>simp_all add: researchBranch_def\<close>)
qed

lemma researchBranch_not_stuck:
  assumes tb: "\<not> stuck h (fst (tryBlock env onProgress breadth depth ls us progress q s))"
    and rec: "\<And>topic b ls' us' s'. 0 < depth - 1 \<Longrightarrow> \<not> stuck h (fst (recurse topic b (depth - 1) ls' us' s'))"
  shows "\<not> stuck h (fst (researchBranch recurse env onProgress breadth depth ls us progress q s))"
proof (cases "tryBlock env onProgress breadth depth ls us progress q s")
  case (fields out p' s')
  show ?thesis
  proof (cases out)
    case (Returns v)
    show ?thesis
    proof (cases v)
      case (Nested topic b d ls' us')
      from tryBlock_Nested[OF fields[unfolded Returns Nested]] rec
      have "\<not> stuck h (fst (recurse topic b d ls' us' s'))" by simp
      with fields Returns Nested show ?thesis
        by (auto simp: researchBranch_def split: prod.splits)
    qed (use fields Returns in \<open>auto simp: researchBranch_def stuck_def\<close>)
  qed (use fields tb in \<open>auto simp: researchBranch_def stuck_def split: if_splits\<close>)
qed

lemma runBranches_not_stuck:
  assumes br: "\<And>p q s. \<not> stuck h (fst (branch p q s))"
  shows "\<not> stuck h (fst (runBranches branch qs p s))"
proof (induction qs arbitrary: p s)
  case Nil
  show ?case by (auto simp: stuck_def)
next
  case (Cons q qs)
  obtain o1 p1 s1 where a: "branch p q s = (o1, p1, s1)" by (cases "branch p q s") auto
  obtain o2 p2 s2 where b: "runBranches branch qs p1 s1 = (o2, p2, s2)"
    by (cases "runBranches branch qs p1 s1") auto
  from br[of p q s] a have "\<not> stuck h o1" by simp
  moreover from Cons.IH[of p1 s1] b have "\<not> stuck h o2" by simp
  ultimately show ?case using a b by (cases o1; cases o2) (auto simp: stuck_def split: if_splits)
qed

lemma generateSerpQueries_outcome:
  "\<not> stuck h (fst (generateSerpQueries env topic k ls s))"
  by (auto simp: generateSerpQueries_def stuck_def split: prod.splits sum.splits)

lemma deepResearch_Suc_not_stuck:
  assumes br: "\<And>p q s'. \<not> stuck h (fst (researchBranch (deepResearch n env onProgress) env onProgress breadth depth ls us p q s'))"
  shows "\<not> stuck h (fst (deepResearch (Suc n) env onProgress topic breadth depth ls us s))"
proof -
  obtain o1 s1 where a: "generateSerpQueries env topic breadth ls s = (o1, s1)"
    by (cases "generateSerpQueries env topic breadth ls s")
  show ?thesis
  proof (cases o1)
    case (Returns qs)
    obtain o2 p2 s2 where b: "reportProgress onProgress (updateQueries qs) (initialProgress depth breadth) s1 = (o2, p2, s2)"
      by (cases "reportProgress onProgress (updateQueries qs) (initialProgress depth breadth) s1") auto
    show ?thesis
    proof (cases o2)
      case (Returns u)
      obtain o3 p3 s3 where c:
        "runBranches (researchBranch (deepResearch n env onProgress) env onProgress breadth depth ls us) qs p2 s2 = (o3, p3, s3)"
        by (cases "runBranches (researchBranch (deepResearch n env onProgress) env onProgress breadth depth ls us) qs p2 s2") auto
      have "\<not> stuck h (fst (runBranches (researchBranch (deepResearch n env onProgress) env onProgress
                 breadth depth ls us) qs p2 s2))"
        by (rule runBranches_not_stuck) (rule br)
      with c have "\<not> stuck h o3" by simp
      with a \<open>o1 = Returns qs\<close> b Returns c show ?thesis
        by (cases o3) (auto simp: stuck_def split: if_splits)
    qed (use a \<open>o1 = Returns qs\<close> b reportProgress_outcome[of onProgress "updateQueries qs" "initialProgress depth breadth" s1] in \<open>auto simp: stuck_def split: if_splits\<close>)
  qed (use a generateSerpQueries_outcome[of h env topic breadth ls s] in \<open>auto simp: stuck_def split: if_splits\<close>)
qed

lemma deepResearch_enough:
  "max 1 depth \<le> int n \<Longrightarrow>
     deepResearch (Suc n) env onProgress topic breadth depth ls us s =
       deepResearch n env onProgress topic breadth depth ls us s \<and>
     fst (deepResearch n env onProgress topic breadth depth ls us s) \<noteq> TooDeep \<and>
     (splitter_nonexpanding (splitter env) \<longrightarrow>
        fst (deepResearch n env onProgress topic breadth depth ls us s) \<noteq> Hangs)"
proof (induction n arbitrary: depth topic breadth ls us s)
  case 0
  then show ?case by simp
next
  case (Suc n)
  have sub: "0 < depth - 1 \<Longrightarrow> max 1 (depth - 1) \<le> int n"
    using Suc.prems by simp
  have agree: "researchBranch (deepResearch (Suc n) env onProgress) env onProgress breadth depth ls us =
               researchBranch (deepResearch n env onProgress) env onProgress breadth depth ls us"
    by (intro ext researchBranch_agree) (use Suc.IH sub in blast)
  have eq: "deepResearch (Suc (Suc n)) env onProgress topic breadth depth ls us s =
            deepResearch (Suc n) env onProgress topic breadth depth ls us s"
    unfolding deepResearch.simps agree by (rule refl)
  have "\<not> stuck False (fst (deepResearch (Suc n) env onProgress topic breadth depth ls us s))"
  proof (rule deepResearch_Suc_not_stuck, rule researchBranch_not_stuck)
    show "\<not> stuck False (fst (tryBlock env onProgress breadth depth ls us p q s'))" for p q s'
      using tryBlock_not_TooDeep by (simp add: stuck_def)
    show "\<not> stuck False (fst (deepResearch n env onProgress topic b (depth - 1) ls' us' s'))"
      if "0 < depth - 1" for topic b ls' us' s'
      using Suc.IH[OF sub[OF that]] by (simp add: stuck_def)
  qed
  then have nd: "fst (deepResearch (Suc n) env onProgress topic breadth depth ls us s) \<noteq> TooDeep"
    by (simp add: stuck_def)
  have nh: "fst (deepResearch (Suc n) env onProgress topic breadth depth ls us s) \<noteq> Hangs"
    if ne: "splitter_nonexpanding (splitter env)"
  proof -
    have "\<not> stuck True (fst (deepResearch (Suc n) env onProgress topic breadth depth ls us s))"
    proof (rule deepResearch_Suc_not_stuck, rule researchBranch_not_stuck)
      show "\<not> stuck True (fst (tryBlock env onProgress breadth depth ls us p q s'))" for p q s'
        using tryBlock_not_Hangs[OF ne] by (simp add: stuck_def)
      show "\<not> stuck True (fst (deepResearch n env onProgress topic b (depth - 1) ls' us' s'))"
        if "0 < depth - 1" for topic b ls' us' s'
        using Suc.IH[OF sub[OF that]] ne by (simp add: stuck_def)
    qed
    then show ?thesis by (simp add: stuck_def)
  qed
  from eq nd nh show ?case by blast
qed

lemma deepResearch_more:
  assumes "max 1 depth \<le> int m"
  shows "deepResearch (m + k) env onProgress topic breadth depth ls us s =
         deepResearch m env onProgress topic breadth depth ls us s"
proof (induction k)
  case (Suc k)
  from assms have "max 1 depth \<le> int (m + k)" by simp
  from deepResearch_enough[OF this, of env onProgress topic breadth ls us s]
  have "deepResearch (Suc (m + k)) env onProgress topic breadth depth ls us s =
        deepResearch (m + k) env onProgress topic breadth depth ls us s" by blast
  with Suc show ?case by (simp del: deepResearch.simps)
qed simp

text \<open>
  C5. Whatever the breadth, \<open>max 1 depth\<close> nested invocations are enough: with that bound
  the outcome is not \<open>TooDeep\<close>, a larger bound changes nothing, and, the splitter being as
  the trimmer needs it, the invocation ends (it returns or throws). A branch makes its
  nested call with the depth decreased by 1, and only when the decreased depth is
  positive; it ends with its own learnings and sources exactly when the decreased depth
  is 0 or less. For a depth of 1 or more the nesting is at most \<open>depth\<close>; for a depth of 0
  or less the one invocation still runs.
\<close>

theorem deepResearch_returns_within_depth:
  "(\<forall>n \<ge> nat (max 1 depth).
      deepResearch n env onProgress topic breadth depth ls us s =
        deepResearch (nat (max 1 depth)) env onProgress topic breadth depth ls us s) \<and>
   fst (deepResearch (nat (max 1 depth)) env onProgress topic breadth depth ls us s) \<noteq> TooDeep \<and>
   (splitter_nonexpanding (splitter env) \<longrightarrow>
      completes (fst (deepResearch (nat (max 1 depth)) env onProgress topic breadth depth ls us s))) \<and>
   (\<forall>progress q s0 t b d ls' us' p' s'.
      tryBlock env onProgress breadth depth ls us progress q s0 = (Returns (Nested t b d ls' us'), p', s') \<longrightarrow>
        d = depth - 1 \<and> 0 < d) \<and>
   (\<forall>progress q s0 r p' s'.
      tryBlock env onProgress breadth depth ls us progress q s0 = (Returns (Value r), p', s') \<longrightarrow>
        depth - 1 \<le> 0)"
proof -
  let ?N = "nat (max 1 depth)"
  have N: "max 1 depth \<le> int ?N" by simp
  have more: "\<forall>n \<ge> ?N. deepResearch n env onProgress topic breadth depth ls us s =
        deepResearch ?N env onProgress topic breadth depth ls us s"
  proof (intro allI impI)
    fix n assume "?N \<le> n"
    then obtain k where "n = ?N + k" using le_Suc_ex by blast
    with deepResearch_more[OF N] show "deepResearch n env onProgress topic breadth depth ls us s =
        deepResearch ?N env onProgress topic breadth depth ls us s" by simp
  qed
  from deepResearch_enough[OF N, of env onProgress topic breadth ls us s]
  have nd: "fst (deepResearch ?N env onProgress topic breadth depth ls us s) \<noteq> TooDeep"
    and nh: "splitter_nonexpanding (splitter env) \<longrightarrow>
        fst (deepResearch ?N env onProgress topic breadth depth ls us s) \<noteq> Hangs"
    by blast+
  from nd nh have c: "splitter_nonexpanding (splitter env) \<longrightarrow>
      completes (fst (deepResearch ?N env onProgress topic breadth depth ls us s))"
    by (auto simp: completes_def split: outcome.splits)
  have n1: "\<forall>progress q s0 t b d ls' us' p' s'.
      tryBlock env onProgress breadth depth ls us progress q s0 = (Returns (Nested t b d ls' us'), p', s') \<longrightarrow>
        d = depth - 1 \<and> 0 < d"
    using tryBlock_Nested by blast
  have n2: "\<forall>progress q s0 r p' s'.
      tryBlock env onProgress breadth depth ls us progress q s0 = (Returns (Value r), p', s') \<longrightarrow>
        depth - 1 \<le> 0"
    using tryBlock_Value by blast
  show ?thesis by (intro conjI more nd c n1 n2)
qed

theorem deepResearch_returns_within_depth_witness:
  "splitter_nonexpanding (splitter demoEnv) \<and>
   deepResearch 2 demoEnv None (ascii ''t'') 1 2 [] [] start =
     (Returns \<lparr>learnings = [ascii ''q1''],
               visitedUrls = [\<lparr>ref = 0, url = ascii ''u'', summary = ascii ''Example''\<rparr>,
                              \<lparr>ref = 1, url = ascii ''u'', summary = ascii ''Example''\<rparr>]\<rparr>,
      \<lparr>world = 2, nextRef = 2, notified = []\<rparr>) \<and>
   deepResearch 3 demoEnv None (ascii ''t'') 1 2 [] [] start =
     deepResearch 2 demoEnv None (ascii ''t'') 1 2 [] [] start \<and>
   completes (fst (deepResearch 2 demoEnv None (ascii ''t'') 1 2 [] [] start)) \<and>
   fst (deepResearch 1 demoEnv None (ascii ''t'') 1 2 [] [] start) = TooDeep \<and>
   fst (deepResearch 1 demoEnv None (ascii ''t'') 1 0 [] [] start) =
     Returns \<lparr>learnings = [ascii ''q1''],
              visitedUrls = [\<lparr>ref = 0, url = ascii ''u'', summary = ascii ''Example''\<rparr>]\<rparr>"
proof -
  have ne: "splitter_nonexpanding (splitter demoEnv)"
    by (simp add: demoEnv_def wholeSplitter_nonexpanding)
  have two: "deepResearch 2 demoEnv None (ascii ''t'') 1 2 [] [] start =
     (Returns \<lparr>learnings = [ascii ''q1''],
               visitedUrls = [\<lparr>ref = 0, url = ascii ''u'', summary = ascii ''Example''\<rparr>,
                              \<lparr>ref = 1, url = ascii ''u'', summary = ascii ''Example''\<rparr>]\<rparr>,
      \<lparr>world = 2, nextRef = 2, notified = []\<rparr>)"
    by (simp add: model_defs demo_defs deepResearch_numeral)
  have one: "fst (deepResearch 1 demoEnv None (ascii ''t'') 1 2 [] [] start) = TooDeep"
    by (simp add: model_defs demo_defs)
  have zero: "fst (deepResearch 1 demoEnv None (ascii ''t'') 1 0 [] [] start) =
     Returns \<lparr>learnings = [ascii ''q1''],
              visitedUrls = [\<lparr>ref = 0, url = ascii ''u'', summary = ascii ''Example''\<rparr>]\<rparr>"
    by (simp add: model_defs demo_defs)
  have N: "nat (max 1 (2::int)) = 2" by simp
  note T = deepResearch_returns_within_depth[of 2 demoEnv None "ascii ''t''" 1 "[]" "[]" start, unfolded N]
  from T have "(2::nat) \<le> 3 \<longrightarrow> deepResearch 3 demoEnv None (ascii ''t'') 1 2 [] [] start =
          deepResearch 2 demoEnv None (ascii ''t'') 1 2 [] [] start"
    by blast
  then have three: "deepResearch 3 demoEnv None (ascii ''t'') 1 2 [] [] start =
          deepResearch 2 demoEnv None (ascii ''t'') 1 2 [] [] start"
    by simp
  from T ne have c: "completes (fst (deepResearch 2 demoEnv None (ascii ''t'') 1 2 [] [] start))"
    by blast
  from ne two one zero three c show ?thesis by (simp del: deepResearch.simps)
qed

section \<open>The progress object\<close>

lemma generateSerpQueries_log: "notified (snd (generateSerpQueries env topic k ls s)) = notified s"
  by (auto simp: generateSerpQueries_def split: prod.splits sum.splits)

lemma selectSummary_log: "notified (snd (selectSummary env item s)) = notified s"
  by (auto simp: selectSummary_def split: prod.splits sum.splits option.splits)

lemma newUrl_log: "notified (snd (newUrl env item s)) = notified s"
  using selectSummary_log[of env item s]
  by (auto simp: newUrl_def split: prod.splits option.splits outcome.splits)

lemma newUrls_log: "notified (snd (newUrls env items s)) = notified s"
proof (induction items arbitrary: s)
  case (Cons item items)
  obtain o1 s1 where a: "newUrl env item s = (o1, s1)" by (cases "newUrl env item s")
  obtain o2 s2 where b: "newUrls env items s1 = (o2, s2)" by (cases "newUrls env items s1")
  from newUrl_log[of env item s] a have "notified s1 = notified s" by simp
  moreover from Cons.IH[of s1] b have "notified s2 = notified s1" by simp
  ultimately show ?case using a b by (cases o1; cases o2) auto
qed simp

lemma processSerpResult_log: "notified (snd (processSerpResult env q items k1 k2 s)) = notified s"
  by (auto simp: processSerpResult_def split: prod.splits sum.splits option.splits)

lemma reportProgress_log:
  "prefix (notified s) (notified (snd (snd (reportProgress onProgress update progress s))))"
  by (auto simp: reportProgress_def Let_def split: prod.splits option.splits)

lemma tryBlock_log:
  "prefix (notified s) (notified (snd (snd (tryBlock env onProgress breadth depth ls us progress q s))))"
proof (cases "search env (query q) (world s)")
  case (Pair res w)
  show ?thesis
  proof (cases res)
    case (Inl e)
    with Pair show ?thesis by (simp add: tryBlock_def)
  next
    case (Inr items)
    obtain o1 s1 where a: "newUrls env items (s\<lparr>world := w\<rparr>) = (o1, s1)"
      by (cases "newUrls env items (s\<lparr>world := w\<rparr>)")
    from newUrls_log[of env items "s\<lparr>world := w\<rparr>"] a have l1: "notified s1 = notified s" by simp
    obtain o2 s2 where b: "processSerpResult env (query q) items 3 (ceilHalf breadth) s1 = (o2, s2)"
      by (cases "processSerpResult env (query q) items 3 (ceilHalf breadth) s1")
    from processSerpResult_log[of env "query q" items 3 "ceilHalf breadth" s1] b l1
    have l2: "notified s2 = notified s" by simp
    have r: "prefix (notified s) (notified (snd (snd (reportProgress onProgress u progress s2))))" for u
      using reportProgress_log[of s2 onProgress u progress] l2 by simp
    from Pair Inr a b l1 l2 show ?thesis
      using r[of "updateDeeper (depth - 1) (ceilHalf breadth) q"] r[of "updateDone q"]
      by (cases o1; cases o2)
         (auto simp: tryBlock_def Let_def split: prod.splits outcome.splits)
  qed
qed

lemma researchBranch_log:
  assumes "\<And>topic b d ls' us' s'. prefix (notified s') (notified (snd (recurse topic b d ls' us' s')))"
  shows "prefix (notified s)
           (notified (snd (snd (researchBranch recurse env onProgress breadth depth ls us progress q s))))"
proof (cases "tryBlock env onProgress breadth depth ls us progress q s")
  case (fields out p' s')
  from tryBlock_log[of s env onProgress breadth depth ls us progress q] fields
  have l: "prefix (notified s) (notified s')" by simp
  show ?thesis
  proof (cases out)
    case (Returns v)
    show ?thesis
    proof (cases v)
      case (Nested topic b d ls' us')
      from assms[of s' topic b d ls' us'] l
      have "prefix (notified s) (notified (snd (recurse topic b d ls' us' s')))"
        by (rule prefix_order.order_trans[rotated])
      with fields Returns Nested show ?thesis
        by (auto simp: researchBranch_def split: prod.splits)
    qed (use fields Returns l in \<open>simp add: researchBranch_def\<close>)
  qed (use fields l in \<open>simp_all add: researchBranch_def\<close>)
qed

lemma runBranches_log:
  assumes "\<And>p q s. prefix (notified s) (notified (snd (snd (branch p q s))))"
  shows "prefix (notified s) (notified (snd (snd (runBranches branch qs p s))))"
proof (induction qs arbitrary: p s)
  case (Cons q qs)
  obtain o1 p1 s1 where a: "branch p q s = (o1, p1, s1)" by (cases "branch p q s") auto
  obtain o2 p2 s2 where b: "runBranches branch qs p1 s1 = (o2, p2, s2)"
    by (cases "runBranches branch qs p1 s1") auto
  from assms[of s p q] a have l1: "prefix (notified s) (notified s1)" by simp
  from Cons.IH[of s1 p1] b have "prefix (notified s1) (notified s2)" by simp
  with l1 have "prefix (notified s) (notified s2)" by (rule prefix_order.order_trans)
  with a b l1 show ?case by (cases o1; cases o2) auto
qed simp

lemma deepResearch_log:
  "prefix (notified s) (notified (snd (deepResearch n env onProgress topic breadth depth ls us s)))"
proof (induction n arbitrary: topic breadth depth ls us s)
  case (Suc n)
  obtain o1 s1 where a: "generateSerpQueries env topic breadth ls s = (o1, s1)"
    by (cases "generateSerpQueries env topic breadth ls s")
  from generateSerpQueries_log[of env topic breadth ls s] a have l1: "notified s1 = notified s" by simp
  show ?case
  proof (cases o1)
    case (Returns qs)
    obtain o2 p2 s2 where b:
      "reportProgress onProgress (updateQueries qs) (initialProgress depth breadth) s1 = (o2, p2, s2)"
      by (cases "reportProgress onProgress (updateQueries qs) (initialProgress depth breadth) s1") auto
    from reportProgress_log[of s1 onProgress "updateQueries qs" "initialProgress depth breadth"] b l1
    have l2: "prefix (notified s) (notified s2)" by simp
    let ?B = "researchBranch (deepResearch n env onProgress) env onProgress breadth depth ls us"
    obtain o3 p3 s3 where c: "runBranches ?B qs p2 s2 = (o3, p3, s3)"
      by (cases "runBranches ?B qs p2 s2") auto
    have "prefix (notified s2) (notified (snd (snd (runBranches ?B qs p2 s2))))"
      by (rule runBranches_log, rule researchBranch_log, rule Suc.IH)
    with c l2 have l3: "prefix (notified s) (notified s3)"
      by (auto intro: prefix_order.order_trans)
    from a Returns b c l2 l3 show ?thesis by (cases o2; cases o3) auto
  qed (use a l1 in auto)
qed simp

lemma tryBlock_progress:
  assumes "tryBlock env onProgress breadth depth ls us progress q s = (out, p', s')"
  shows "p' = progress \<or> p' = updateDeeper (depth - 1) (ceilHalf breadth) q progress \<or>
         p' = updateDone q progress"
proof -
  have r: "fst (snd (reportProgress onProgress u progress t)) = u progress" for u t
    by (auto simp: reportProgress_def Let_def split: option.splits prod.splits)
  show ?thesis
    using assms r[of "updateDeeper (depth - 1) (ceilHalf breadth) q"] r[of "updateDone q"]
    unfolding tryBlock_def Let_def
    by (auto split: prod.splits sum.splits outcome.splits if_splits) (metis fst_conv snd_conv)+
qed

text \<open>
  C7, as the code has it. Every invocation of \<open>deepResearch\<close>, nested or not, builds its own
  progress object from its own depth and breadth (line 198): when its queries were
  generated, the first snapshot its observer gets is that fresh object with
  \<open>totalQueries\<close> and \<open>currentQuery\<close> assigned, put after the snapshots notified before.
  A nested invocation is given the observer, not the progress object of its caller. Inside
  an invocation a branch leaves the progress object as it found it or with one of the two
  updates of lines 311 and 332 merged into it.
\<close>

theorem every_invocation_starts_own_progress:
  assumes "generateSerpQueries env topic breadth ls s = (Returns qs, s1)"
  shows "(\<exists>rest. notified (snd (deepResearch (Suc n) env (Some observer) topic breadth depth ls us s)) =
            notified s @ updateQueries qs (initialProgress depth breadth) # rest) \<and>
         (\<forall>progress q s0 out p' s'.
            tryBlock env (Some observer) breadth depth ls us progress q s0 = (out, p', s') \<longrightarrow>
            p' = progress \<or> p' = updateDeeper (depth - 1) (ceilHalf breadth) q progress \<or>
            p' = updateDone q progress)"
proof -
  let ?p = "updateQueries qs (initialProgress depth breadth)"
  from generateSerpQueries_log[of env topic breadth ls s] assms have l1: "notified s1 = notified s" by simp
  obtain o2 p2 s2 where b: "reportProgress (Some observer) (updateQueries qs) (initialProgress depth breadth) s1 = (o2, p2, s2)"
    by (cases "reportProgress (Some observer) (updateQueries qs) (initialProgress depth breadth) s1") auto
  then have l2: "notified s2 = notified s @ [?p]" and o2: "o2 \<noteq> Hangs" "o2 \<noteq> TooDeep"
    using l1 by (auto simp: reportProgress_def Let_def split: prod.splits option.splits)
  let ?B = "researchBranch (deepResearch n env (Some observer)) env (Some observer) breadth depth ls us"
  obtain o3 p3 s3 where c: "runBranches ?B qs p2 s2 = (o3, p3, s3)"
    by (cases "runBranches ?B qs p2 s2") auto
  have "prefix (notified s2) (notified (snd (snd (runBranches ?B qs p2 s2))))"
    by (rule runBranches_log, rule researchBranch_log, rule deepResearch_log)
  with c l2 obtain rest where l3: "notified s3 = notified s @ ?p # rest"
    by (auto simp: prefix_def)
  from assms b c l2 l3 o2
  have first: "\<exists>rest. notified (snd (deepResearch (Suc n) env (Some observer) topic breadth depth ls us s)) =
            notified s @ ?p # rest"
    by (cases o2; cases o3) auto
  have merged: "\<forall>progress q s0 out p' s'.
            tryBlock env (Some observer) breadth depth ls us progress q s0 = (out, p', s') \<longrightarrow>
            p' = progress \<or> p' = updateDeeper (depth - 1) (ceilHalf breadth) q progress \<or>
            p' = updateDone q progress"
    using tryBlock_progress by blast
  from first merged show ?thesis by (rule conjI)
qed

theorem every_invocation_starts_own_progress_witness:
  "generateSerpQueries demoEnv (ascii ''t'') 1 [] start = (Returns [q1], start) \<and>
   notified (snd (deepResearch 2 demoEnv (Some quietObserver) (ascii ''t'') 1 2 [] [] start)) =
     notified start @ updateQueries [q1] (initialProgress 2 1) #
       [updateDeeper 1 1 q1 (updateQueries [q1] (initialProgress 2 1)),
        updateQueries [q1] (initialProgress 1 1),
        updateDone q1 (updateQueries [q1] (initialProgress 1 1))]"
proof -
  have g: "generateSerpQueries demoEnv (ascii ''t'') 1 [] start = (Returns [q1], start)"
    by (simp add: model_defs demo_defs quietObserver_def)
  have r: "notified (snd (deepResearch (Suc 1) demoEnv (Some quietObserver) (ascii ''t'') 1 2 [] [] start)) =
     notified start @ updateQueries [q1] (initialProgress 2 1) #
       [updateDeeper 1 1 q1 (updateQueries [q1] (initialProgress 2 1)),
        updateQueries [q1] (initialProgress 1 1),
        updateDone q1 (updateQueries [q1] (initialProgress 1 1))]"
    by (simp add: model_defs demo_defs quietObserver_def)
  from every_invocation_starts_own_progress[OF g, of 1 quietObserver 2 "[]"] g r
  show ?thesis by (simp del: deepResearch.simps add: numeral_2_eq_2)
qed

text \<open>
  C7 as the specification states it fails: in a run of depth 2 the four snapshots have the
  total depths 2, 2, 1, 1 and the completed queries 0, 1, 0, 1. No update assigns
  \<open>totalDepth\<close>, and no update lowers \<open>completedQueries\<close>: the third and the fourth snapshot
  are of another object, the one built by the nested invocation.
\<close>

theorem progress_not_shared_counterexample:
  "map totalDepth (notified (snd (deepResearch 2 demoEnv (Some quietObserver) (ascii ''t'') 1 2 [] [] start))) =
     [2, 2, 1, 1] \<and>
   map completedQueries (notified (snd (deepResearch 2 demoEnv (Some quietObserver) (ascii ''t'') 1 2 [] [] start))) =
     [0, 1, 0, 1]"
  by (simp add: model_defs demo_defs quietObserver_def deepResearch_numeral)

end
